theory Spec2Isabelle
  imports Main "HOL-Library.AList"
begin

section \<open>Python values used by libstoplight\<close>

text \<open>
  A Python \<open>bytes\<close> object is a list of 8-bit characters (\<open>string\<close>); a Python \<open>str\<close> is
  a list of Unicode code points. \<open>ascii\<close> writes an ASCII literal as a \<open>str\<close>.
\<close>

type_synonym bytes = string
type_synonym pystr = "nat list"

definition ascii :: "string \<Rightarrow> pystr" where
  "ascii s = map of_char s"

text \<open>
  The values \<open>json.load\<close> produces and \<open>json.dumps\<close> consumes. \<open>JNull\<close> is Python's
  \<open>None\<close>. A \<open>dict\<close> is an association list in insertion order with distinct keys. A float
  keeps the text it was read from: its numeric value is never computed here, the three
  operations the program applies to a float are fields of the environment below.
\<close>

datatype json =
    JNull
  | JBool bool
  | JInt int
  | JFloat pystr
  | JStr pystr
  | JList "json list"
  | JObj "(pystr \<times> json) list"

text \<open>The exceptions that can leave the methods of \<open>Server\<close>.\<close>

datatype exn =
    PeerClosed                \<comment> \<open>\<open>RuntimeError("Peer closed.")\<close>\<close>
  | InvalidMode pystr         \<comment> \<open>\<open>ValueError("Invalid events mask mode ...")\<close>\<close>
  | MissingHeader pystr       \<comment> \<open>\<open>ValueError('Missing required header "...".')\<close>\<close>
  | JSONDecodeError
  | UnicodeDecodeError
  | UnicodeEncodeError
  | LookupError
  | TypeError
  | KeyError
  | StructError
  | AttributeError
  | InvalidFileObject         \<comment> \<open>\<open>ValueError("Invalid file object: None")\<close>\<close>

text \<open>
  What the program takes from its platform: \<open>sys.byteorder\<close>, the codecs other than UTF-8
  (by name, with the locale's default codec under \<open>None\<close>), and the float operations
  (\<open>repr\<close>, truth value, \<open>len(buffer) >= x\<close>).
\<close>

record env =
  sys_byteorder :: pystr
  other_codecs :: "pystr option \<Rightarrow> ((pystr \<Rightarrow> bytes option) \<times> (bytes \<Rightarrow> pystr option)) option"
  float_repr :: "pystr \<Rightarrow> pystr"
  float_truthy :: "pystr \<Rightarrow> bool"
  float_le_len :: "pystr \<Rightarrow> nat \<Rightarrow> bool"

section \<open>UTF-8\<close>

definition is_surrogate :: "nat \<Rightarrow> bool" where
  "is_surrogate c \<longleftrightarrow> 0xD800 \<le> c \<and> c \<le> 0xDFFF"

definition utf8_char :: "nat \<Rightarrow> bytes option" where
  "utf8_char c =
     (if c < 0x80 then Some [char_of c]
      else if c < 0x800 then Some [char_of (0xC0 + c div 64), char_of (0x80 + c mod 64)]
      else if c < 0x10000 then
        (if is_surrogate c then None
         else Some [char_of (0xE0 + c div 4096), char_of (0x80 + c div 64 mod 64),
                    char_of (0x80 + c mod 64)])
      else if c < 0x110000 then
        Some [char_of (0xF0 + c div 262144), char_of (0x80 + c div 4096 mod 64),
              char_of (0x80 + c div 64 mod 64), char_of (0x80 + c mod 64)]
      else None)"

fun utf8_encode :: "pystr \<Rightarrow> bytes option" where
  "utf8_encode [] = Some []"
| "utf8_encode (c # cs) =
     (case utf8_char c of
        None \<Rightarrow> None
      | Some bs \<Rightarrow> (case utf8_encode cs of None \<Rightarrow> None | Some r \<Rightarrow> Some (bs @ r)))"

definition is_cont :: "char \<Rightarrow> bool" where
  "is_cont b \<longleftrightarrow> 0x80 \<le> (of_char b :: nat) \<and> (of_char b :: nat) \<le> 0xBF"

definition cont_bits :: "char \<Rightarrow> nat" where
  "cont_bits b = of_char b - 0x80"

text \<open>
  The strict decoder: a continuation byte out of place, an overlong form, a surrogate or a
  code point above \<open>0x10FFFF\<close> is a \<open>UnicodeDecodeError\<close> (\<open>None\<close>).
\<close>

fun utf8_decode :: "bytes \<Rightarrow> pystr option" where
  "utf8_decode [] = Some []"
| "utf8_decode (b # bs) =
     (let x = (of_char b :: nat) in
      if x < 0x80 then map_option ((#) x) (utf8_decode bs)
      else if 0xC2 \<le> x \<and> x \<le> 0xDF then
        (case bs of
           b1 # r \<Rightarrow>
             if is_cont b1
             then map_option ((#) ((x - 0xC0) * 64 + cont_bits b1)) (utf8_decode r)
             else None
         | _ \<Rightarrow> None)
      else if 0xE0 \<le> x \<and> x \<le> 0xEF then
        (case bs of
           b1 # b2 # r \<Rightarrow>
             (let c = (x - 0xE0) * 4096 + cont_bits b1 * 64 + cont_bits b2 in
              if is_cont b1 \<and> is_cont b2 \<and> 0x800 \<le> c \<and> \<not> is_surrogate c
              then map_option ((#) c) (utf8_decode r)
              else None)
         | _ \<Rightarrow> None)
      else if 0xF0 \<le> x \<and> x \<le> 0xF4 then
        (case bs of
           b1 # b2 # b3 # r \<Rightarrow>
             (let c = (x - 0xF0) * 262144 + cont_bits b1 * 4096 + cont_bits b2 * 64
                        + cont_bits b3 in
              if is_cont b1 \<and> is_cont b2 \<and> is_cont b3 \<and> 0x10000 \<le> c \<and> c < 0x110000
              then map_option ((#) c) (utf8_decode r)
              else None)
         | _ \<Rightarrow> None)
      else None)"

section \<open>The \<open>json\<close> module\<close>

subsection \<open>\<open>json.dumps(obj, ensure_ascii=False)\<close>\<close>

definition hexdigit :: "nat \<Rightarrow> nat" where
  "hexdigit d = (if d < 10 then 0x30 + d else 0x57 + d)"

text \<open>
  With \<open>ensure_ascii=False\<close> only the quote, the backslash and the control characters
  below \<open>0x20\<close> are escaped.
\<close>

definition escape_char :: "nat \<Rightarrow> pystr" where
  "escape_char c =
     (if c = 0x5C then [0x5C, 0x5C]
      else if c = 0x22 then [0x5C, 0x22]
      else if c = 0x08 then [0x5C, 0x62]
      else if c = 0x0C then [0x5C, 0x66]
      else if c = 0x0A then [0x5C, 0x6E]
      else if c = 0x0D then [0x5C, 0x72]
      else if c = 0x09 then [0x5C, 0x74]
      else if c < 0x20 then [0x5C, 0x75, 0x30, 0x30, hexdigit (c div 16), hexdigit (c mod 16)]
      else [c])"

definition encode_basestring :: "pystr \<Rightarrow> pystr" where
  "encode_basestring s = 0x22 # concat (map escape_char s) @ [0x22]"

function digits :: "nat \<Rightarrow> pystr" where
  "digits n = (if n < 10 then [0x30 + n] else digits (n div 10) @ [0x30 + n mod 10])"
  by pat_completeness auto
termination
  by (relation "measure id") auto

declare digits.simps [simp del]

definition int_repr :: "int \<Rightarrow> pystr" where
  "int_repr i = (if i < 0 then 0x2D # digits (nat (- i)) else digits (nat i))"

fun join :: "pystr \<Rightarrow> pystr list \<Rightarrow> pystr" where
  "join sep [] = []"
| "join sep [x] = x"
| "join sep (x # y # ys) = x @ sep @ join sep (y # ys)"

fun dumps :: "env \<Rightarrow> json \<Rightarrow> pystr" where
  "dumps e JNull = ascii ''null''"
| "dumps e (JBool b) = (if b then ascii ''true'' else ascii ''false'')"
| "dumps e (JInt i) = int_repr i"
| "dumps e (JFloat l) = float_repr e l"
| "dumps e (JStr s) = encode_basestring s"
| "dumps e (JList xs) = [0x5B] @ join (ascii '', '') (map (dumps e) xs) @ [0x5D]"
| "dumps e (JObj kvs) =
     [0x7B] @ join (ascii '', '')
                (map (\<lambda>kv. encode_basestring (fst kv) @ ascii '': '' @ dumps e (snd kv)) kvs)
     @ [0x7D]"

subsection \<open>\<open>json.loads\<close>\<close>

definition is_ws :: "nat \<Rightarrow> bool" where
  "is_ws c \<longleftrightarrow> c = 0x20 \<or> c = 0x09 \<or> c = 0x0A \<or> c = 0x0D"

definition skip_ws :: "pystr \<Rightarrow> pystr" where
  "skip_ws s = dropWhile is_ws s"

definition is_digit :: "nat \<Rightarrow> bool" where
  "is_digit c \<longleftrightarrow> 0x30 \<le> c \<and> c \<le> 0x39"

definition hexval :: "nat \<Rightarrow> nat option" where
  "hexval c =
     (if 0x30 \<le> c \<and> c \<le> 0x39 then Some (c - 0x30)
      else if 0x61 \<le> c \<and> c \<le> 0x66 then Some (c - 0x57)
      else if 0x41 \<le> c \<and> c \<le> 0x46 then Some (c - 0x37)
      else None)"

text \<open>Four hexadecimal digits at the head of the text, and what follows them.\<close>

fun hex4 :: "pystr \<Rightarrow> (nat \<times> pystr) option" where
  "hex4 (a # b # c # d # r) =
     (case (hexval a, hexval b, hexval c, hexval d) of
        (Some x, Some y, Some z, Some w) \<Rightarrow> Some (((x * 16 + y) * 16 + z) * 16 + w, r)
      | _ \<Rightarrow> None)"
| "hex4 _ = None"

definition unescape :: "nat \<Rightarrow> nat option" where
  "unescape c =
     (if c = 0x22 then Some 0x22
      else if c = 0x5C then Some 0x5C
      else if c = 0x2F then Some 0x2F
      else if c = 0x62 then Some 0x08
      else if c = 0x66 then Some 0x0C
      else if c = 0x6E then Some 0x0A
      else if c = 0x72 then Some 0x0D
      else if c = 0x74 then Some 0x09
      else None)"

definition cons_fst :: "nat \<Rightarrow> (pystr \<times> pystr) option \<Rightarrow> (pystr \<times> pystr) option" where
  "cons_fst c r = (case r of None \<Rightarrow> None | Some (s, rest) \<Rightarrow> Some (c # s, rest))"

text \<open>
  \<open>scanstring\<close> in strict mode, entered after the opening quote: the string's code points
  and the text after the closing quote. A \<open>\\uXXXX\<close> escape must be followed by at least
  one more character; a high surrogate directly followed by an escaped low surrogate is
  joined with it.
\<close>

function scanstring :: "pystr \<Rightarrow> (pystr \<times> pystr) option" where
  "scanstring [] = None"
| "scanstring (c # cs) =
     (if c = 0x22 then Some ([], cs)
      else if c = 0x5C then
        (case cs of
           [] \<Rightarrow> None
         | x # es \<Rightarrow>
             if x = 0x75 then
               (case hex4 es of
                  None \<Rightarrow> None
                | Some (u, r) \<Rightarrow>
                    if r = [] then None
                    else if 0xD800 \<le> u \<and> u \<le> 0xDBFF \<and> 6 < length r
                            \<and> r ! 0 = 0x5C \<and> r ! 1 = 0x75 then
                      (case hex4 (drop 2 r) of
                         None \<Rightarrow> None
                       | Some (u2, r2) \<Rightarrow>
                           if 0xDC00 \<le> u2 \<and> u2 \<le> 0xDFFF
                           then cons_fst (0x10000 + (u - 0xD800) * 1024 + (u2 - 0xDC00))
                                  (scanstring r2)
                           else cons_fst u (scanstring r))
                    else cons_fst u (scanstring r))
             else (case unescape x of None \<Rightarrow> None | Some d \<Rightarrow> cons_fst d (scanstring es)))
      else if c < 0x20 then None
      else cons_fst c (scanstring cs))"
  by pat_completeness auto
termination
proof -
  have hex4_shorter: "length r < length s" if "hex4 s = Some (u, r)" for s u r
    using that by (induction s rule: hex4.induct) (auto split: option.splits)
  show ?thesis
  proof (relation "measure length", goal_cases)
    case 1
    show ?case by simp
  next
    case (2 c cs x es p u r q u2 r2)
    have "length r2 < length (drop 2 r)"
      using 2 by (auto dest: hex4_shorter)
    moreover have "length r < length es"
      using 2 by (auto dest: hex4_shorter)
    ultimately show ?case using 2 by simp
  next
    case 3
    then show ?case by (auto dest: hex4_shorter)
  next
    case 4
    then show ?case by (auto dest: hex4_shorter)
  next
    case 5
    then show ?case by simp
  next
    case 6
    then show ?case by simp
  qed
qed

text \<open>
  A number: \<open>-?(0|[1-9][0-9]*)(\.[0-9]+)?([eE][-+]?[0-9]+)?\<close>. Without fraction and exponent it
  is an \<open>int\<close>, otherwise a float. An integer literal is converted whatever its length: the
  limit that CPython 3.11 and later put on the digits of such a conversion (4300 unless
  \<open>sys.set_int_max_str_digits\<close> changes it, a \<open>ValueError\<close> beyond) is not modelled. The
  lengths that \<open>_create_message\<close> prints are lengths of \<open>bytes\<close> objects and have at most
  19 digits.
\<close>

definition scan_int_part :: "pystr \<Rightarrow> (pystr \<times> pystr) option" where
  "scan_int_part s =
     (case s of
        [] \<Rightarrow> None
      | d # r \<Rightarrow>
          if d = 0x30 then Some ([d], r)
          else if is_digit d then Some (takeWhile is_digit s, dropWhile is_digit s)
          else None)"

definition scan_frac :: "pystr \<Rightarrow> pystr \<times> pystr" where
  "scan_frac s =
     (case s of
        [] \<Rightarrow> ([], s)
      | d # r \<Rightarrow>
          if d = 0x2E \<and> takeWhile is_digit r \<noteq> []
          then (d # takeWhile is_digit r, dropWhile is_digit r)
          else ([], s))"

definition scan_sign :: "pystr \<Rightarrow> pystr \<times> pystr" where
  "scan_sign s =
     (case s of
        [] \<Rightarrow> ([], s)
      | x # r \<Rightarrow> if x = 0x2B \<or> x = 0x2D then ([x], r) else ([], s))"

definition scan_exp :: "pystr \<Rightarrow> pystr \<times> pystr" where
  "scan_exp s =
     (case s of
        [] \<Rightarrow> ([], s)
      | x # r \<Rightarrow>
          if x = 0x65 \<or> x = 0x45 then
            (let (sg, r') = scan_sign r in
             if takeWhile is_digit r' \<noteq> []
             then (x # sg @ takeWhile is_digit r', dropWhile is_digit r')
             else ([], s))
          else ([], s))"

definition digits_value :: "pystr \<Rightarrow> nat" where
  "digits_value ds = foldl (\<lambda>a d. 10 * a + (d - 0x30)) 0 ds"

definition match_number :: "pystr \<Rightarrow> (json \<times> pystr) option" where
  "match_number s =
     (let (sign, s1) = (case s of [] \<Rightarrow> ([], s) | c # r \<Rightarrow> if c = 0x2D then ([c], r) else ([], s))
      in case scan_int_part s1 of
           None \<Rightarrow> None
         | Some (ip, r1) \<Rightarrow>
             (let (fr, r2) = scan_frac r1; (ex, r3) = scan_exp r2
              in if fr \<noteq> [] \<or> ex \<noteq> [] then Some (JFloat (sign @ ip @ fr @ ex), r3)
                 else Some (JInt (if sign = [] then int (digits_value ip)
                                  else - int (digits_value ip)), r3)))"

text \<open>
  The literals and numbers \<open>scan_once\<close> tries after strings, objects and arrays, in its order.
\<close>

definition scan_literal :: "pystr \<Rightarrow> (json \<times> pystr) option" where
  "scan_literal s =
     (if take 4 s = ascii ''null'' then Some (JNull, drop 4 s)
      else if take 4 s = ascii ''true'' then Some (JBool True, drop 4 s)
      else if take 5 s = ascii ''false'' then Some (JBool False, drop 5 s)
      else if match_number s \<noteq> None then match_number s
      else if take 3 s = ascii ''NaN'' then Some (JFloat (ascii ''NaN''), drop 3 s)
      else if take 8 s = ascii ''Infinity'' then Some (JFloat (ascii ''Infinity''), drop 8 s)
      else if take 9 s = ascii ''-Infinity'' then Some (JFloat (ascii ''-Infinity''), drop 9 s)
      else None)"

text \<open>
  The scanner. \<open>scan_once\<close> reads one value at the head of the text; \<open>parse_array\<close> is entered
  at the first element, \<open>parse_object\<close> after the opening quote of a key. A repeated key
  keeps its first position and takes the last value, as \<open>dict(pairs)\<close> does. Every call
  spends one unit of the first argument, and a call made with none left gives no value;
  \<open>loads\<close> starts with twice the length of the text and two more.
\<close>

fun scan_once :: "nat \<Rightarrow> pystr \<Rightarrow> (json \<times> pystr) option"
  and parse_array :: "nat \<Rightarrow> json list \<Rightarrow> pystr \<Rightarrow> (json \<times> pystr) option"
  and parse_object :: "nat \<Rightarrow> (pystr \<times> json) list \<Rightarrow> pystr \<Rightarrow> (json \<times> pystr) option"
where
  "scan_once 0 s = None"
| "scan_once (Suc n) [] = None"
| "scan_once (Suc n) (c # cs) =
     (if c = 0x22 then
        (case scanstring cs of None \<Rightarrow> None | Some (str, r) \<Rightarrow> Some (JStr str, r))
      else if c = 0x7B then
        (case skip_ws cs of
           [] \<Rightarrow> None
         | d # r \<Rightarrow>
             if d = 0x7D then Some (JObj [], r)
             else if d = 0x22 then parse_object n [] r
             else None)
      else if c = 0x5B then
        (case skip_ws cs of
           [] \<Rightarrow> None
         | d # r \<Rightarrow> if d = 0x5D then Some (JList [], r) else parse_array n [] (d # r))
      else scan_literal (c # cs))"
| "parse_array 0 acc s = None"
| "parse_array (Suc n) acc s =
     (case scan_once n s of
        None \<Rightarrow> None
      | Some (v, r) \<Rightarrow>
          (case skip_ws r of
             [] \<Rightarrow> None
           | d # r' \<Rightarrow>
               if d = 0x5D then Some (JList (acc @ [v]), r')
               else if d = 0x2C then parse_array n (acc @ [v]) (skip_ws r')
               else None))"
| "parse_object 0 acc s = None"
| "parse_object (Suc n) acc s =
     (case scanstring s of
        None \<Rightarrow> None
      | Some (key, r) \<Rightarrow>
          (case skip_ws r of
             [] \<Rightarrow> None
           | d # r1 \<Rightarrow>
               if d \<noteq> 0x3A then None
               else
                 (case scan_once n (skip_ws r1) of
                    None \<Rightarrow> None
                  | Some (v, r2) \<Rightarrow>
                      (case skip_ws r2 of
                         [] \<Rightarrow> None
                       | d2 # r3 \<Rightarrow>
                           if d2 = 0x7D then Some (JObj (AList.update key v acc), r3)
                           else if d2 = 0x2C then
                             (case skip_ws r3 of
                                [] \<Rightarrow> None
                              | q # r4 \<Rightarrow>
                                  if q = 0x22 then parse_object n (AList.update key v acc) r4
                                  else None)
                           else None))))"

text \<open>
  \<open>json.loads\<close> on a \<open>str\<close>: a leading byte order mark is refused, white space may surround
  the value, anything else after it is "Extra data". \<open>None\<close> is \<open>JSONDecodeError\<close>.
\<close>

definition loads :: "pystr \<Rightarrow> json option" where
  "loads s =
     (if take 1 s = [0xFEFF] then None
      else case scan_once (2 * length s + 2) (skip_ws s) of
             None \<Rightarrow> None
           | Some (v, r) \<Rightarrow> if skip_ws r = [] then Some v else None)"

section \<open>Operations of Python on these values\<close>

text \<open>\<open>if x:\<close> for a decoded value.\<close>

definition truthy :: "env \<Rightarrow> json \<Rightarrow> bool" where
  "truthy e v =
     (case v of
        JNull \<Rightarrow> False
      | JBool b \<Rightarrow> b
      | JInt i \<Rightarrow> i \<noteq> 0
      | JFloat l \<Rightarrow> float_truthy e l
      | JStr t \<Rightarrow> t \<noteq> []
      | JList xs \<Rightarrow> xs \<noteq> []
      | JObj kvs \<Rightarrow> kvs \<noteq> [])"

fun is_substr :: "pystr \<Rightarrow> pystr \<Rightarrow> bool" where
  "is_substr k [] = (k = [])"
| "is_substr k (c # cs) = (take (length k) (c # cs) = k \<or> is_substr k cs)"

text \<open>
  \<open>k in h\<close> for a \<open>str\<close> \<open>k\<close>: a key of a \<open>dict\<close>, an element of a \<open>list\<close>, a substring of a
  \<open>str\<close>; the other values are not iterable.
\<close>

definition py_contains :: "json \<Rightarrow> pystr \<Rightarrow> exn + bool" where
  "py_contains h k =
     (case h of
        JObj kvs \<Rightarrow> Inr (map_of kvs k \<noteq> None)
      | JList xs \<Rightarrow> Inr (JStr k \<in> set xs)
      | JStr t \<Rightarrow> Inr (is_substr k t)
      | _ \<Rightarrow> Inl TypeError)"

text \<open>\<open>h[k]\<close> for a \<open>str\<close> \<open>k\<close>: only a \<open>dict\<close> can be indexed by a \<open>str\<close>.\<close>

definition py_getitem :: "json \<Rightarrow> pystr \<Rightarrow> exn + json" where
  "py_getitem h k =
     (case h of
        JObj kvs \<Rightarrow> (case map_of kvs k of None \<Rightarrow> Inl KeyError | Some v \<Rightarrow> Inr v)
      | _ \<Rightarrow> Inl TypeError)"

text \<open>\<open>len(buf) >= x\<close>, with \<open>n = len(buf)\<close>: \<open>bool\<close> counts as 0 or 1.\<close>

definition py_len_ge :: "env \<Rightarrow> nat \<Rightarrow> json \<Rightarrow> exn + bool" where
  "py_len_ge e n x =
     (case x of
        JInt i \<Rightarrow> Inr (i \<le> int n)
      | JBool b \<Rightarrow> Inr ((if b then 1 else 0) \<le> n)
      | JFloat l \<Rightarrow> Inr (float_le_len e l n)
      | _ \<Rightarrow> Inl TypeError)"

text \<open>\<open>buf[:x]\<close>: a negative stop counts from the end, \<open>None\<close> takes everything.\<close>

definition py_slice_to :: "bytes \<Rightarrow> json \<Rightarrow> exn + bytes" where
  "py_slice_to buf x =
     (case x of
        JInt i \<Rightarrow> Inr (if 0 \<le> i then take (nat i) buf else take (length buf - nat (- i)) buf)
      | JBool b \<Rightarrow> Inr (take (if b then 1 else 0) buf)
      | JNull \<Rightarrow> Inr buf
      | _ \<Rightarrow> Inl TypeError)"

text \<open>\<open>struct.pack(">H", n)\<close> and \<open>struct.unpack(">H", b)[0]\<close>.\<close>

definition pack_H :: "nat \<Rightarrow> exn + bytes" where
  "pack_H n = (if n < 65536 then Inr [char_of (n div 256), char_of (n mod 256)]
               else Inl StructError)"

definition unpack_H :: "bytes \<Rightarrow> exn + nat" where
  "unpack_H b = (case b of [hi, lo] \<Rightarrow> Inr (256 * of_char hi + of_char lo)
                 | _ \<Rightarrow> Inl StructError)"

text \<open>Codec lookup: UTF-8 is the one modelled here, the others are the environment's.\<close>

definition lookup_codec ::
  "env \<Rightarrow> pystr option \<Rightarrow> ((pystr \<Rightarrow> bytes option) \<times> (bytes \<Rightarrow> pystr option)) option" where
  "lookup_codec e name =
     (if name = Some (ascii ''utf-8'') then Some (utf8_encode, utf8_decode)
      else other_codecs e name)"

section \<open>The class \<open>Server\<close>\<close>

text \<open>
  \<open>request\<close> holds a decoded value or raw bytes; \<open>Decoded JNull\<close> is \<open>None\<close>.
\<close>

datatype payload = Decoded json | Raw bytes

datatype line =
    Sending bytes
  | Closing
  | UnregisterError exn
  | SocketCloseError
  | ReceivedRequest payload
  | ReceivedType json

text \<open>
  The fields of a \<open>Server\<close>, with the private ones named without their underscore.
  \<open>sock\<close> is the descriptor of the socket (\<open>None\<close> once closed), \<open>selector\<close> the events mask
  the selector holds for each registered descriptor, \<open>stdout\<close> what has been printed.
  \<open>addr\<close> (only printed) and the unused \<open>_jsonheader\<close> are left out.
\<close>

record conn =
  selector :: "nat \<Rightarrow> int option"
  sock :: "nat option"
  verbose :: bool
  recv_buffer :: bytes
  send_buffer :: bytes
  jsonheader_len :: "nat option"
  jsonheader :: json
  request :: payload
  response_created :: bool
  stdout :: "line list"

text \<open>A method returns the updated connection, or an exception with the connection as
  it is when the exception is raised.\<close>

type_synonym result = "(exn \<times> conn) + conn"

definition EVENT_READ :: int where "EVENT_READ = 1"
definition EVENT_WRITE :: int where "EVENT_WRITE = 2"

definition init :: "(nat \<Rightarrow> int option) \<Rightarrow> nat \<Rightarrow> bool \<Rightarrow> conn" where
  "init sel fd v =
     \<lparr>selector = sel, sock = Some fd, verbose = v, recv_buffer = [], send_buffer = [],
      jsonheader_len = None, jsonheader = JNull, request = Decoded JNull,
      response_created = False, stdout = []\<rparr>"

text \<open>
  \<open>_set_selector_events_mask\<close>. \<open>selector.modify\<close> raises \<open>ValueError\<close> for a socket that is
  \<open>None\<close> and \<open>KeyError\<close> for one that is not registered.
\<close>

definition priv_set_selector_events_mask :: "pystr \<Rightarrow> conn \<Rightarrow> result" where
  "priv_set_selector_events_mask mode s =
     (let events =
        (if mode = ascii ''r'' then Some EVENT_READ
         else if mode = ascii ''w'' then Some EVENT_WRITE
         else if mode = ascii ''rw'' then Some (or EVENT_READ EVENT_WRITE)
         else None)
      in case events of
           None \<Rightarrow> Inl (InvalidMode mode, s)
         | Some ev \<Rightarrow>
             (case sock s of
                None \<Rightarrow> Inl (InvalidFileObject, s)
              | Some fd \<Rightarrow>
                  (case selector s fd of
                     None \<Rightarrow> Inl (KeyError, s)
                   | Some _ \<Rightarrow> Inr (s\<lparr>selector := (selector s)(fd \<mapsto> ev)\<rparr>))))"

text \<open>What \<open>sock.recv(4096)\<close> does: \<open>BlockingIOError\<close>, or the bytes received (at most 4096;
  none when the peer has closed).\<close>

datatype recv_result = RecvWouldBlock | Recv bytes

definition priv_read :: "recv_result \<Rightarrow> conn \<Rightarrow> result" where
  "priv_read rr s =
     (case sock s of
        None \<Rightarrow> Inl (AttributeError, s)
      | Some fd \<Rightarrow>
          (case rr of
             RecvWouldBlock \<Rightarrow> Inr s
           | Recv data \<Rightarrow>
               if data \<noteq> [] then Inr (s\<lparr>recv_buffer := recv_buffer s @ data\<rparr>)
               else Inl (PeerClosed, s)))"

text \<open>
  \<open>close\<close>. The environment decides whether \<open>selector.unregister\<close> raises beyond what the
  registry itself implies, and whether \<open>sock.close()\<close> raises \<open>OSError\<close>. On a connection
  whose \<open>sock\<close> is already \<open>None\<close>, \<open>self.sock.close()\<close> is an \<open>AttributeError\<close>, which
  \<open>except OSError\<close> does not catch.
\<close>

record teardown =
  unregister_raises :: "exn option"
  close_raises_oserror :: bool

definition close :: "teardown \<Rightarrow> conn \<Rightarrow> result" where
  "close td s =
     (let s1 = (if verbose s then s\<lparr>stdout := stdout s @ [Closing]\<rparr> else s);
          s2 = (case unregister_raises td of
                  Some x \<Rightarrow> s1\<lparr>stdout := stdout s1 @ [UnregisterError x]\<rparr>
                | None \<Rightarrow>
                    (case sock s1 of
                       None \<Rightarrow> s1\<lparr>stdout := stdout s1 @ [UnregisterError InvalidFileObject]\<rparr>
                     | Some fd \<Rightarrow>
                         (case selector s1 fd of
                            None \<Rightarrow> s1\<lparr>stdout := stdout s1 @ [UnregisterError KeyError]\<rparr>
                          | Some _ \<Rightarrow> s1\<lparr>selector := (selector s1)(fd := None)\<rparr>)))
      in case sock s2 of
           None \<Rightarrow> Inl (AttributeError, s2\<lparr>sock := None\<rparr>)
         | Some fd \<Rightarrow>
             if close_raises_oserror td
             then Inr (s2\<lparr>stdout := stdout s2 @ [SocketCloseError], sock := None\<rparr>)
             else Inr (s2\<lparr>sock := None\<rparr>))"

text \<open>What \<open>sock.send(buffer)\<close> does: \<open>BlockingIOError\<close>, or the number of bytes taken.\<close>

datatype send_result = SendWouldBlock | Sent nat

definition priv_write :: "send_result \<Rightarrow> teardown \<Rightarrow> conn \<Rightarrow> result" where
  "priv_write sr td s =
     (if send_buffer s \<noteq> [] then
        (let s1 = (if verbose s then s\<lparr>stdout := stdout s @ [Sending (send_buffer s)]\<rparr> else s)
         in case sock s1 of
              None \<Rightarrow> Inl (AttributeError, s1)
            | Some fd \<Rightarrow>
                (case sr of
                   SendWouldBlock \<Rightarrow> Inr s1
                 | Sent n \<Rightarrow>
                     (let s2 = s1\<lparr>send_buffer := drop n (send_buffer s1)\<rparr>
                      in if n \<noteq> 0 \<and> send_buffer s2 = [] then close td s2 else Inr s2)))
      else Inr s)"

definition priv_json_encode :: "env \<Rightarrow> json \<Rightarrow> pystr \<Rightarrow> exn + bytes" where
  "priv_json_encode e obj encoding =
     (case lookup_codec e (Some encoding) of
        None \<Rightarrow> Inl LookupError
      | Some codec \<Rightarrow>
          (case fst codec (dumps e obj) of
             None \<Rightarrow> Inl UnicodeEncodeError
           | Some b \<Rightarrow> Inr b))"

text \<open>
  \<open>_json_decode\<close>: the \<open>TextIOWrapper\<close> takes a \<open>str\<close> or \<open>None\<close> (the locale's codec) as
  encoding, decodes the whole buffer strictly, and \<open>json.load\<close> parses the text.
\<close>

definition priv_json_decode :: "env \<Rightarrow> bytes \<Rightarrow> json \<Rightarrow> exn + json" where
  "priv_json_decode e json_bytes encoding =
     (case (case encoding of
              JStr name \<Rightarrow> Inr (Some name)
            | JNull \<Rightarrow> Inr None
            | _ \<Rightarrow> Inl TypeError) of
        Inl x \<Rightarrow> Inl x
      | Inr name \<Rightarrow>
          (case lookup_codec e name of
             None \<Rightarrow> Inl LookupError
           | Some codec \<Rightarrow>
               (case snd codec json_bytes of
                  None \<Rightarrow> Inl UnicodeDecodeError
                | Some text \<Rightarrow>
                    (case loads text of
                       None \<Rightarrow> Inl JSONDecodeError
                     | Some obj \<Rightarrow> Inr obj))))"

text \<open>\<open>_create_message\<close>: \<open>len(None)\<close> is a \<open>TypeError\<close>.\<close>

definition priv_create_message :: "env \<Rightarrow> bytes option \<Rightarrow> json \<Rightarrow> json \<Rightarrow> exn + bytes" where
  "priv_create_message e content_bytes content_type content_encoding =
     (case content_bytes of
        None \<Rightarrow> Inl TypeError
      | Some cb \<Rightarrow>
          (let jsonheader =
                 JObj [(ascii ''byteorder'', JStr (sys_byteorder e)),
                       (ascii ''content-type'', content_type),
                       (ascii ''content-encoding'', content_encoding),
                       (ascii ''content-length'', JInt (int (length cb)))]
           in case priv_json_encode e jsonheader (ascii ''utf-8'') of
                Inl x \<Rightarrow> Inl x
              | Inr jsonheader_bytes \<Rightarrow>
                  (case pack_H (length jsonheader_bytes) of
                     Inl x \<Rightarrow> Inl x
                   | Inr message_hdr \<Rightarrow> Inr (message_hdr @ jsonheader_bytes @ cb))))"

record response =
  content_bytes :: "bytes option"
  content_type :: json
  content_encoding :: json

definition priv_create_response_json_content :: "env \<Rightarrow> exn + response" where
  "priv_create_response_json_content e =
     (let answer = 1;
          content = JObj [(ascii ''result'', JInt answer)];
          content_encoding = ascii ''utf-8''
      in case priv_json_encode e content content_encoding of
           Inl x \<Rightarrow> Inl x
         | Inr b \<Rightarrow>
             Inr \<lparr>content_bytes = Some b, content_type = JStr (ascii ''text/json''),
                  content_encoding = JStr content_encoding\<rparr>)"

definition priv_create_empty_response_content :: response where
  "priv_create_empty_response_content =
     \<lparr>content_bytes = None, content_type = JNull, content_encoding = JStr (ascii ''binary'')\<rparr>"

definition process_protoheader :: "conn \<Rightarrow> result" where
  "process_protoheader s =
     (let hdrlen = 2 in
      if length (recv_buffer s) \<ge> hdrlen then
        (case unpack_H (take hdrlen (recv_buffer s)) of
           Inl x \<Rightarrow> Inl (x, s)
         | Inr n \<Rightarrow>
             Inr (s\<lparr>jsonheader_len := Some n, recv_buffer := drop hdrlen (recv_buffer s)\<rparr>))
      else Inr s)"

definition required_headers :: "pystr list" where
  "required_headers =
     [ascii ''byteorder'', ascii ''content-length'', ascii ''content-type'',
      ascii ''content-encoding'']"

text \<open>The loop over the required headers: the exception of the first one that fails.\<close>

fun check_required :: "json \<Rightarrow> pystr list \<Rightarrow> exn option" where
  "check_required h [] = None"
| "check_required h (reqhdr # rest) =
     (case py_contains h reqhdr of
        Inl x \<Rightarrow> Some x
      | Inr present \<Rightarrow> if \<not> present then Some (MissingHeader reqhdr) else check_required h rest)"

definition process_jsonheader :: "env \<Rightarrow> conn \<Rightarrow> result" where
  "process_jsonheader e s =
     (case jsonheader_len s of
        None \<Rightarrow> Inl (TypeError, s)
      | Some hdrlen \<Rightarrow>
          if length (recv_buffer s) \<ge> hdrlen then
            (case priv_json_decode e (take hdrlen (recv_buffer s)) (JStr (ascii ''utf-8'')) of
               Inl x \<Rightarrow> Inl (x, s)
             | Inr h \<Rightarrow>
                 (let s1 = s\<lparr>jsonheader := h, recv_buffer := drop hdrlen (recv_buffer s)\<rparr>
                  in case check_required (jsonheader s1) required_headers of
                       Some x \<Rightarrow> Inl (x, s1)
                     | None \<Rightarrow> Inr s1))
          else Inr s)"

definition process_request :: "env \<Rightarrow> conn \<Rightarrow> result" where
  "process_request e s =
     (case py_getitem (jsonheader s) (ascii ''content-length'') of
        Inl x \<Rightarrow> Inl (x, s)
      | Inr content_len \<Rightarrow>
     (case py_len_ge e (length (recv_buffer s)) content_len of
        Inl x \<Rightarrow> Inl (x, s)
      | Inr enough \<Rightarrow>
          if \<not> enough then Inr s
          else
     (case py_slice_to (recv_buffer s) content_len of
        Inl x \<Rightarrow> Inl (x, s)
      | Inr data \<Rightarrow>
     (case py_getitem (jsonheader s) (ascii ''content-type'') of
        Inl x \<Rightarrow> Inl (x, s)
      | Inr ctype \<Rightarrow>
          if ctype = JStr (ascii ''text/json'') then
            (case py_getitem (jsonheader s) (ascii ''content-encoding'') of
               Inl x \<Rightarrow> Inl (x, s)
             | Inr encoding \<Rightarrow>
                 (case priv_json_decode e data encoding of
                    Inl x \<Rightarrow> Inl (x, s)
                  | Inr obj \<Rightarrow>
                      (let s1 = s\<lparr>request := Decoded obj\<rparr>
                       in Inr (if verbose s1
                               then s1\<lparr>stdout := stdout s1 @ [ReceivedRequest (request s1)]\<rparr>
                               else s1))))
          else
            (let s1 = s\<lparr>request := Raw data\<rparr>;
                 s2 = s1\<lparr>stdout := stdout s1 @ [ReceivedType ctype]\<rparr>
             in priv_set_selector_events_mask (ascii ''w'') s2)))))"

definition create_response :: "env \<Rightarrow> conn \<Rightarrow> result" where
  "create_response e s =
     (case py_getitem (jsonheader s) (ascii ''content-type'') of
        Inl x \<Rightarrow> Inl (x, s)
      | Inr ctype \<Rightarrow>
          (case (if ctype = JStr (ascii ''text/json'') then priv_create_response_json_content e
                 else Inr priv_create_empty_response_content) of
             Inl x \<Rightarrow> Inl (x, s)
           | Inr response \<Rightarrow>
               (case priv_create_message e (content_bytes response) (content_type response)
                       (content_encoding response) of
                  Inl x \<Rightarrow> Inl (x, s)
                | Inr message \<Rightarrow>
                    Inr (s\<lparr>response_created := True,
                           send_buffer := send_buffer s @ message\<rparr>))))"

definition request_truthy :: "env \<Rightarrow> payload \<Rightarrow> bool" where
  "request_truthy e p = (case p of Decoded v \<Rightarrow> truthy e v | Raw b \<Rightarrow> b \<noteq> [])"

definition read :: "env \<Rightarrow> recv_result \<Rightarrow> conn \<Rightarrow> result" where
  "read e rr s =
     (case priv_read rr s of
        Inl x \<Rightarrow> Inl x
      | Inr s1 \<Rightarrow>
     (case (if jsonheader_len s1 = None then process_protoheader s1 else Inr s1) of
        Inl x \<Rightarrow> Inl x
      | Inr s2 \<Rightarrow>
     (case (if jsonheader_len s2 \<noteq> None \<and> jsonheader s2 = JNull
            then process_jsonheader e s2 else Inr s2) of
        Inl x \<Rightarrow> Inl x
      | Inr s3 \<Rightarrow>
          if truthy e (jsonheader s3) \<and> request s3 = Decoded JNull
          then process_request e s3 else Inr s3)))"

text \<open>\<open>write\<close> (the name is a keyword of Isabelle, hence the suffix).\<close>

definition write_ev :: "env \<Rightarrow> send_result \<Rightarrow> teardown \<Rightarrow> conn \<Rightarrow> result" where
  "write_ev e sr td s =
     (case (if request_truthy e (request s) \<and> \<not> response_created s
            then create_response e s else Inr s) of
        Inl x \<Rightarrow> Inl x
      | Inr s1 \<Rightarrow> priv_write sr td s1)"

definition process_events ::
  "env \<Rightarrow> recv_result \<Rightarrow> send_result \<Rightarrow> teardown \<Rightarrow> int \<Rightarrow> conn \<Rightarrow> result" where
  "process_events e rr sr td evmask s =
     (case (if and evmask EVENT_READ \<noteq> 0 then read e rr s else Inr s) of
        Inl x \<Rightarrow> Inl x
      | Inr s1 \<Rightarrow> if and evmask EVENT_WRITE \<noteq> 0 then write_ev e sr td s1 else Inr s1)"

text \<open>Read events delivered one after the other, each with the bytes it receives.\<close>

fun read_all :: "env \<Rightarrow> bytes list \<Rightarrow> conn \<Rightarrow> result" where
  "read_all e [] s = Inr s"
| "read_all e (c # cs) s =
     (case read e (Recv c) s of Inl x \<Rightarrow> Inl x | Inr s1 \<Rightarrow> read_all e cs s1)"

section \<open>Evaluation on concrete inputs\<close>

text \<open>
  A platform for the concrete runs: little-endian, UTF-8 as the only codec. No concrete run
  below reads or prints a float or names another codec, so that \<open>float_repr\<close>,
  \<open>float_truthy\<close>, \<open>float_le_len\<close> and \<open>other_codecs\<close> are never consulted there: the values
  they are given here are placeholders, not the behaviour of CPython. The theorems stated
  for every platform \<open>e\<close> do not depend on them.
\<close>

definition env0 :: env where
  "env0 = \<lparr>sys_byteorder = ascii ''little'', other_codecs = (\<lambda>_. None),
           float_repr = (\<lambda>l. l), float_truthy = (\<lambda>_. True), float_le_len = (\<lambda>_ _. False)\<rparr>"

text \<open>A fresh connection on descriptor 5, registered for read events.\<close>

definition sel0 :: "nat \<Rightarrow> int option" where
  "sel0 fd = (if fd = 5 then Some EVENT_READ else None)"

definition conn0 :: conn where
  "conn0 = init sel0 5 False"

text \<open>A teardown in which nothing fails, and one in which both steps fail.\<close>

definition td0 :: teardown where
  "td0 = \<lparr>unregister_raises = None, close_raises_oserror = False\<rparr>"

definition td_fail :: teardown where
  "td_fail = \<lparr>unregister_raises = Some KeyError, close_raises_oserror = True\<rparr>"

text \<open>A connection waiting for a 22-byte header that lacks three required keys.\<close>

definition conn_bad_header :: conn where
  \<open>conn_bad_header = conn0\<lparr>jsonheader_len := Some 22, recv_buffer := ''{"byteorder":"little"}xyz''\<rparr>\<close>

text \<open>
  A \<open>text/plain\<close> message of two bytes whose header lacks \<open>byteorder\<close>, the connection
  after the read event that rejects it, and that connection after one more read event.
\<close>

definition msg_no_byteorder :: bytes where
  \<open>msg_no_byteorder = [CHR 0x00, CHR 0x4B]
     @ ''{"content-type":"text/plain","content-encoding":"utf-8","content-length":2}''
     @ ''hi''\<close>

definition conn_rejected :: conn where
  "conn_rejected = conn0\<lparr>recv_buffer := ''hi'', jsonheader_len := Some 75,
     jsonheader := JObj [(ascii ''content-type'', JStr (ascii ''text/plain'')),
                         (ascii ''content-encoding'', JStr (ascii ''utf-8'')),
                         (ascii ''content-length'', JInt 2)]\<rparr>"

definition conn_rejected_read :: conn where
  "conn_rejected_read = conn_rejected\<lparr>
     selector := (selector conn0)(5 \<mapsto> EVENT_WRITE),
     request := Raw ''hi'',
     stdout := [ReceivedType (JStr (ascii ''text/plain''))]\<rparr>"


text \<open>
  The message of the scenario as the specification writes it (content length 13 before a
  content of 16 bytes), the same message with the length that the content has, the header
  it decodes to and the response the server builds for it.
\<close>

definition msg13 :: bytes where
  \<open>msg13 = [CHR 0x00, CHR 0x60]
     @ ''{"byteorder":"little","content-type":"text/json","content-encoding":"utf-8","content-length":13}''
     @ ''{"cmd":"status"}''\<close>

definition msg16 :: bytes where
  \<open>msg16 = [CHR 0x00, CHR 0x60]
     @ ''{"byteorder":"little","content-type":"text/json","content-encoding":"utf-8","content-length":16}''
     @ ''{"cmd":"status"}''\<close>

definition header16 :: json where
  "header16 = JObj [(ascii ''byteorder'', JStr (ascii ''little'')),
                    (ascii ''content-type'', JStr (ascii ''text/json'')),
                    (ascii ''content-encoding'', JStr (ascii ''utf-8'')),
                    (ascii ''content-length'', JInt 16)]"

definition response16 :: bytes where
  \<open>response16 = [CHR 0x00, CHR 0x67]
     @ ''{"byteorder": "little", "content-type": "text/json", "content-encoding": "utf-8", "content-length": 13}''
     @ ''{"result": 1}''\<close>

definition conn_status :: conn where
  \<open>conn_status = conn0\<lparr>recv_buffer := ''{"cmd":"status"}'', jsonheader_len := Some 96,
     jsonheader := header16,
     request := Decoded (JObj [(ascii ''cmd'', JStr (ascii ''status''))])\<rparr>\<close>

text \<open>A \<open>text/plain\<close> message of two bytes and the connection after reading it.\<close>

definition msg_plain :: bytes where
  \<open>msg_plain = [CHR 0x00, CHR 0x60]
     @ ''{"byteorder":"little","content-type":"text/plain","content-encoding":"utf-8","content-length":2}''
     @ ''hi''\<close>

definition conn_plain_read :: conn where
  "conn_plain_read = conn0\<lparr>
     selector := (selector conn0)(5 \<mapsto> EVENT_WRITE),
     recv_buffer := ''hi'', jsonheader_len := Some 96,
     jsonheader := JObj [(ascii ''byteorder'', JStr (ascii ''little'')),
                         (ascii ''content-type'', JStr (ascii ''text/plain'')),
                         (ascii ''content-encoding'', JStr (ascii ''utf-8'')),
                         (ascii ''content-length'', JInt 2)],
     request := Raw ''hi'',
     stdout := [ReceivedType (JStr (ascii ''text/plain''))]\<rparr>"

text \<open>A \<open>text/json\<close> message whose content is the empty object, and the connection after
  reading it.\<close>

definition msg_empty_object :: bytes where
  \<open>msg_empty_object = [CHR 0x00, CHR 0x5F]
     @ ''{"byteorder":"little","content-type":"text/json","content-encoding":"utf-8","content-length":2}''
     @ ''{}''\<close>

definition conn_empty_object :: conn where
  "conn_empty_object = conn0\<lparr>
     recv_buffer := ''{}'', jsonheader_len := Some 95,
     jsonheader := JObj [(ascii ''byteorder'', JStr (ascii ''little'')),
                         (ascii ''content-type'', JStr (ascii ''text/json'')),
                         (ascii ''content-encoding'', JStr (ascii ''utf-8'')),
                         (ascii ''content-length'', JInt 2)],
     request := Decoded (JObj [])\<rparr>"

text \<open>The fresh connection after one \<open>close\<close>, and a connection with two bytes of a
  response left to send.\<close>

definition conn_closed :: conn where
  "conn_closed = conn0\<lparr>selector := (selector conn0)(5 := None), sock := None\<rparr>"

definition conn_sending :: conn where
  "conn_sending = conn0\<lparr>send_buffer := ''ab'', response_created := True\<rparr>"





text \<open>The message with content length 16 cut into three chunks.\<close>

definition chunks16 :: "bytes list" where
  "chunks16 = [take 1 msg16, take 50 (drop 1 msg16), drop 51 msg16]"

section \<open>The order of the stages\<close>

text \<open>
  The decode pipeline fills its fields in order: no header without a header length, no
  request without a header. A fresh connection is in this order and \<open>read\<close> keeps it.
\<close>

definition stage_inv :: "conn \<Rightarrow> bool" where
  "stage_inv s \<longleftrightarrow> (jsonheader_len s = None \<longrightarrow> jsonheader s = JNull)
                  \<and> (jsonheader s = JNull \<longrightarrow> request s = Decoded JNull)"

section \<open>Evaluation lemmas\<close>

lemma digits_simps:
  "n < 10 \<Longrightarrow> digits n = [0x30 + n]"
  "10 \<le> n \<Longrightarrow> digits n = digits (n div 10) @ [0x30 + n mod 10]"
  by (subst digits.simps, simp)+

lemma scan_once_Nil: "scan_once n [] = None"
  by (cases n) simp_all

lemma fuel_pos:
  "0 < n \<Longrightarrow> scan_once n (c # cs) = scan_once (Suc (n - 1)) (c # cs)"
  "0 < n \<Longrightarrow> parse_array n a s = parse_array (Suc (n - 1)) a s"
  "0 < n \<Longrightarrow> parse_object n b s = parse_object (Suc (n - 1)) b s"
  by simp_all

lemmas fuel_unfold =
  fuel_pos(1)[unfolded scan_once.simps]
  fuel_pos(2)[unfolded parse_array.simps]
  fuel_pos(3)[unfolded parse_object.simps]

lemmas json_eval =
  ascii_def cons_fst_def skip_ws_def is_ws_def loads_def scan_once_Nil fuel_unfold
  match_number_def scan_int_part_def scan_frac_def scan_exp_def scan_sign_def is_digit_def
  digits_value_def scan_literal_def is_cont_def cont_bits_def is_surrogate_def
  utf8_char_def escape_char_def encode_basestring_def int_repr_def hexdigit_def
  char_of_def bit_Suc_0_iff

lemmas server_eval =
  truthy_def py_contains_def py_getitem_def py_len_ge_def py_slice_to_def pack_H_def
  unpack_H_def lookup_codec_def init_def priv_set_selector_events_mask_def priv_read_def
  close_def priv_write_def priv_json_encode_def priv_json_decode_def priv_create_message_def
  priv_create_response_json_content_def priv_create_empty_response_content_def
  process_protoheader_def required_headers_def process_jsonheader_def process_request_def
  create_response_def request_truthy_def read_def write_ev_def EVENT_READ_def EVENT_WRITE_def
  env0_def conn0_def sel0_def

section \<open>The header-length stage\<close>

lemma unpack_H_two: "unpack_H [hi, lo] = Inr (256 * of_char hi + of_char lo)"
  by (simp add: unpack_H_def)

lemma of_char_lt_256: "(of_char c :: nat) < 256"
proof -
  have "(of_char c :: nat) = of_char (char_of (of_char c :: nat))" by simp
  also have "\<dots> = (of_char c :: nat) mod 256" by (simp only: of_char_of)
  finally have eq: "(of_char c :: nat) = of_char c mod 256" .
  have "(of_char c :: nat) mod 256 < 256" by simp
  then show ?thesis using eq by simp
qed

text \<open>
  C8. \<open>process_protoheader\<close> on a buffer of at least two bytes takes exactly the first two,
  stores their big-endian value (an unsigned 16-bit number) as the header length and leaves
  the rest of the buffer; on a shorter buffer it changes nothing.
\<close>

theorem process_protoheader_stage:
  "(2 \<le> length (recv_buffer s) \<longrightarrow>
      (\<exists>hi lo rest. recv_buffer s = hi # lo # rest
         \<and> process_protoheader s =
             Inr (s\<lparr>jsonheader_len := Some (256 * of_char hi + of_char lo), recv_buffer := rest\<rparr>)
         \<and> 256 * of_char hi + of_char lo < (65536 :: nat)))
   \<and> (length (recv_buffer s) < 2 \<longrightarrow> process_protoheader s = Inr s)"
proof (intro conjI impI)
  assume len: "2 \<le> length (recv_buffer s)"
  then obtain hi lo rest where b: "recv_buffer s = hi # lo # rest"
    by (cases "recv_buffer s"; cases "tl (recv_buffer s)") auto
  have "(of_char hi :: nat) < 256" "(of_char lo :: nat) < 256"
    by (rule of_char_lt_256)+
  then have "256 * of_char hi + of_char lo < (65536 :: nat)" by arith
  moreover have "process_protoheader s =
      Inr (s\<lparr>jsonheader_len := Some (256 * of_char hi + of_char lo), recv_buffer := rest\<rparr>)"
    using b by (simp add: process_protoheader_def unpack_H_two)
  ultimately show "\<exists>hi lo rest. recv_buffer s = hi # lo # rest
         \<and> process_protoheader s =
             Inr (s\<lparr>jsonheader_len := Some (256 * of_char hi + of_char lo), recv_buffer := rest\<rparr>)
         \<and> 256 * of_char hi + of_char lo < (65536 :: nat)"
    using b by blast
next
  assume "length (recv_buffer s) < 2"
  then show "process_protoheader s = Inr s"
    by (simp add: process_protoheader_def)
qed

theorem process_protoheader_stage_witness:
  "process_protoheader (conn0\<lparr>recv_buffer := [CHR 0x01, CHR 0x02, CHR ''a'']\<rparr>)
     = Inr (conn0\<lparr>recv_buffer := ''a'', jsonheader_len := Some 258\<rparr>)
   \<and> process_protoheader (conn0\<lparr>recv_buffer := [CHR 0x01]\<rparr>)
     = Inr (conn0\<lparr>recv_buffer := [CHR 0x01]\<rparr>)"
  using process_protoheader_stage [of "conn0\<lparr>recv_buffer := [CHR 0x01, CHR 0x02, CHR ''a'']\<rparr>"]
        process_protoheader_stage [of "conn0\<lparr>recv_buffer := [CHR 0x01]\<rparr>"]
  by (simp add: conn0_def init_def sel0_def)

section \<open>The header stage\<close>

lemma check_required_obj:
  "check_required (JObj kvs) ks = map_option MissingHeader (List.find (\<lambda>k. map_of kvs k = None) ks)"
  by (induction ks) (simp_all add: py_contains_def)

lemma find_missing:
  assumes "\<exists>k \<in> set ks. map_of kvs k = None"
  obtains k where "List.find (\<lambda>k. map_of kvs k = None) ks = Some k" "k \<in> set ks" "map_of kvs k = None"
proof -
  from assms have "List.find (\<lambda>k. map_of kvs k = None) ks \<noteq> None"
    by (auto simp: find_None_iff)
  then obtain k where k: "List.find (\<lambda>k. map_of kvs k = None) ks = Some k" by auto
  then have "k \<in> set ks" "map_of kvs k = None"
    by (auto simp: find_Some_iff)
  with k that show ?thesis by blast
qed

lemma process_jsonheader_missing:
  assumes len: "jsonheader_len s = Some n" "n \<le> length (recv_buffer s)"
    and dec: "priv_json_decode e (take n (recv_buffer s)) (JStr (ascii ''utf-8'')) = Inr (JObj kvs)"
    and mis: "\<exists>k \<in> set required_headers. map_of kvs k = None"
  shows "\<exists>k \<in> set required_headers. map_of kvs k = None \<and>
           process_jsonheader e s =
             Inl (MissingHeader k, s\<lparr>jsonheader := JObj kvs, recv_buffer := drop n (recv_buffer s)\<rparr>)"
proof -
  from mis obtain k where k: "List.find (\<lambda>k. map_of kvs k = None) required_headers = Some k"
    "k \<in> set required_headers" "map_of kvs k = None"
    by (rule find_missing)
  have "process_jsonheader e s =
      Inl (MissingHeader k, s\<lparr>jsonheader := JObj kvs, recv_buffer := drop n (recv_buffer s)\<rparr>)"
    using len dec k(1) by (simp add: process_jsonheader_def check_required_obj)
  with k show ?thesis by blast
qed

lemma conn_bad_header_decodes:
  \<open>priv_json_decode env0 (take 22 (recv_buffer conn_bad_header)) (JStr (ascii ''utf-8''))
     = Inr (JObj [(ascii ''byteorder'', JStr (ascii ''little''))])\<close>
  by (simp add: conn_bad_header_def priv_json_decode_def lookup_codec_def json_eval)

text \<open>
  C10. When the buffered header span decodes to a mapping that lacks a required key,
  \<open>process_jsonheader\<close> raises with the connection already changed: the buffer has lost the
  header span and \<open>jsonheader\<close> holds the decoded mapping. Nothing is rolled back.
\<close>

theorem header_failure_not_atomic:
  assumes "jsonheader_len s = Some n" "n \<le> length (recv_buffer s)" "jsonheader s = JNull"
    and "priv_json_decode e (take n (recv_buffer s)) (JStr (ascii ''utf-8'')) = Inr (JObj kvs)"
    and "\<exists>k \<in> set required_headers. map_of kvs k = None"
  shows "\<exists>k s'. process_jsonheader e s = Inl (MissingHeader k, s')
           \<and> recv_buffer s' = drop n (recv_buffer s)
           \<and> jsonheader s' = JObj kvs
           \<and> s' \<noteq> s"
proof -
  from process_jsonheader_missing [OF assms(1,2,4,5)] obtain k where
    "process_jsonheader e s =
       Inl (MissingHeader k, s\<lparr>jsonheader := JObj kvs, recv_buffer := drop n (recv_buffer s)\<rparr>)"
    by blast
  moreover have "s\<lparr>jsonheader := JObj kvs, recv_buffer := drop n (recv_buffer s)\<rparr> \<noteq> s"
  proof
    assume "s\<lparr>jsonheader := JObj kvs, recv_buffer := drop n (recv_buffer s)\<rparr> = s"
    then have "jsonheader (s\<lparr>jsonheader := JObj kvs, recv_buffer := drop n (recv_buffer s)\<rparr>)
                 = jsonheader s" by simp
    with assms(3) show False by simp
  qed
  ultimately show ?thesis by force
qed

theorem header_failure_not_atomic_witness:
  \<open>jsonheader_len conn_bad_header = Some 22 \<and> 22 \<le> length (recv_buffer conn_bad_header)
   \<and> jsonheader conn_bad_header = JNull
   \<and> priv_json_decode env0 (take 22 (recv_buffer conn_bad_header)) (JStr (ascii ''utf-8''))
       = Inr (JObj [(ascii ''byteorder'', JStr (ascii ''little''))])
   \<and> (\<exists>k \<in> set required_headers. map_of [(ascii ''byteorder'', JStr (ascii ''little''))] k = None)
   \<and> (\<exists>k s'. process_jsonheader env0 conn_bad_header = Inl (MissingHeader k, s')
           \<and> recv_buffer s' = ''xyz''
           \<and> jsonheader s' = JObj [(ascii ''byteorder'', JStr (ascii ''little''))]
           \<and> s' \<noteq> conn_bad_header)\<close>
proof -
  have h1: "jsonheader_len conn_bad_header = Some 22"
    and h2: "22 \<le> length (recv_buffer conn_bad_header)"
    and h3: "jsonheader conn_bad_header = JNull"
    by (simp_all add: conn_bad_header_def conn0_def init_def sel0_def)
  have h5: "\<exists>k \<in> set required_headers. map_of [(ascii ''byteorder'', JStr (ascii ''little''))] k = None"
    by (simp add: required_headers_def ascii_def)
  have b: "drop 22 (recv_buffer conn_bad_header) = ''xyz''"
    by (simp add: conn_bad_header_def)
  show ?thesis
    using header_failure_not_atomic [OF h1 h2 h3 conn_bad_header_decodes h5]
      h1 h2 h3 h5 conn_bad_header_decodes b
    by simp
qed

text \<open>
  C3, amended. When the buffered header span decodes to a mapping that lacks one of the
  four required keys, \<open>process_jsonheader\<close> raises the missing-header \<open>ValueError\<close> for such
  a key, \<open>request\<close> is left as it was, and every \<open>read\<close> event that reaches the header stage
  in this state ends with that exception: in that read event \<open>process_request\<close> is not run.
\<close>

theorem required_field_rejection:
  assumes "jsonheader_len s = Some n" "n \<le> length (recv_buffer s)" "jsonheader s = JNull"
    and "priv_json_decode e (take n (recv_buffer s)) (JStr (ascii ''utf-8'')) = Inr (JObj kvs)"
    and "\<exists>k \<in> set required_headers. map_of kvs k = None"
  shows "\<exists>k s'. k \<in> set required_headers \<and> map_of kvs k = None
           \<and> process_jsonheader e s = Inl (MissingHeader k, s')
           \<and> request s' = request s
           \<and> (\<forall>rr s0 s1. priv_read rr s0 = Inr s1
                 \<and> (if jsonheader_len s1 = None then process_protoheader s1 else Inr s1) = Inr s
                 \<longrightarrow> read e rr s0 = Inl (MissingHeader k, s'))"
proof -
  from process_jsonheader_missing [OF assms(1,2,4,5)] obtain k where
    k: "k \<in> set required_headers" "map_of kvs k = None"
    "process_jsonheader e s =
       Inl (MissingHeader k, s\<lparr>jsonheader := JObj kvs, recv_buffer := drop n (recv_buffer s)\<rparr>)"
    by blast
  let ?s' = "s\<lparr>jsonheader := JObj kvs, recv_buffer := drop n (recv_buffer s)\<rparr>"
  have "read e rr s0 = Inl (MissingHeader k, ?s')"
    if "priv_read rr s0 = Inr s1"
       "(if jsonheader_len s1 = None then process_protoheader s1 else Inr s1) = Inr s"
    for rr s0 s1
    using that k(3) assms(1,3) by (simp add: read_def)
  moreover have "request ?s' = request s" by simp
  ultimately show ?thesis using k by blast
qed

theorem required_field_rejection_witness:
  \<open>jsonheader_len conn_bad_header = Some 22 \<and> 22 \<le> length (recv_buffer conn_bad_header)
   \<and> jsonheader conn_bad_header = JNull
   \<and> priv_json_decode env0 (take 22 (recv_buffer conn_bad_header)) (JStr (ascii ''utf-8''))
       = Inr (JObj [(ascii ''byteorder'', JStr (ascii ''little''))])
   \<and> (\<exists>k \<in> set required_headers. map_of [(ascii ''byteorder'', JStr (ascii ''little''))] k = None)
   \<and> priv_read RecvWouldBlock conn_bad_header = Inr conn_bad_header
   \<and> (if jsonheader_len conn_bad_header = None then process_protoheader conn_bad_header
       else Inr conn_bad_header) = Inr conn_bad_header
   \<and> (\<exists>k s'. k \<in> set required_headers
           \<and> process_jsonheader env0 conn_bad_header = Inl (MissingHeader k, s')
           \<and> request s' = Decoded JNull
           \<and> read env0 RecvWouldBlock conn_bad_header = Inl (MissingHeader k, s'))\<close>
proof -
  have h1: "jsonheader_len conn_bad_header = Some 22"
    and h2: "22 \<le> length (recv_buffer conn_bad_header)"
    and h3: "jsonheader conn_bad_header = JNull"
    and r: "request conn_bad_header = Decoded JNull"
    by (simp_all add: conn_bad_header_def conn0_def init_def sel0_def)
  have h5: "\<exists>k \<in> set required_headers. map_of [(ascii ''byteorder'', JStr (ascii ''little''))] k = None"
    by (simp add: required_headers_def ascii_def)
  have h6: "priv_read RecvWouldBlock conn_bad_header = Inr conn_bad_header"
    by (simp add: priv_read_def conn_bad_header_def conn0_def init_def sel0_def)
  have h7: "(if jsonheader_len conn_bad_header = None then process_protoheader conn_bad_header
       else Inr conn_bad_header) = Inr conn_bad_header"
    using h1 by simp
  from required_field_rejection [OF h1 h2 h3 conn_bad_header_decodes h5]
  obtain k s' where ks: "k \<in> set required_headers"
    "process_jsonheader env0 conn_bad_header = Inl (MissingHeader k, s')"
    "request s' = request conn_bad_header"
    "\<forall>rr s0 s1. priv_read rr s0 = Inr s1
        \<and> (if jsonheader_len s1 = None then process_protoheader s1 else Inr s1) = Inr conn_bad_header
        \<longrightarrow> read env0 rr s0 = Inl (MissingHeader k, s')"
    by blast
  from ks(4) h6 h7 have "read env0 RecvWouldBlock conn_bad_header = Inl (MissingHeader k, s')"
    by blast
  with ks(1-3) r have "\<exists>k s'. k \<in> set required_headers
           \<and> process_jsonheader env0 conn_bad_header = Inl (MissingHeader k, s')
           \<and> request s' = Decoded JNull
           \<and> read env0 RecvWouldBlock conn_bad_header = Inl (MissingHeader k, s')"
    by auto
  then show ?thesis
    using h1 h2 h3 h5 h6 h7 conn_bad_header_decodes by simp
qed

text \<open>
  C3, as stated, fails: payload extraction is performed for the rejected request, in the
  next read event. The exception leaves the decoded header on the connection, and \<open>read\<close>
  runs \<open>process_request\<close> whenever a header is present and no request is set. For the
  message \<open>msg_no_byteorder\<close> the first read event raises for \<open>byteorder\<close> and sets no
  request; a second read event, with nothing received, sets \<open>request\<close> to the bytes \<open>hi\<close>.
\<close>

theorem rejected_header_payload_extracted:
  "read env0 (Recv msg_no_byteorder) conn0
     = Inl (MissingHeader (ascii ''byteorder''), conn_rejected)
   \<and> request conn_rejected = Decoded JNull
   \<and> read env0 RecvWouldBlock conn_rejected = Inr conn_rejected_read
   \<and> request conn_rejected_read = Raw ''hi''"
  by (simp add: server_eval json_eval msg_no_byteorder_def conn_rejected_def
      conn_rejected_read_def)

section \<open>The payload stage\<close>



section \<open>Response synthesis\<close>

text \<open>
  C4. The claim is that a request of another content type gets an empty response appended
  to the send buffer and the flag set. The code passes \<open>content_bytes = None\<close> to
  \<open>_create_message\<close>, where \<open>len(None)\<close> raises: after reading a \<open>text/plain\<close> message, the
  write event ends with \<open>TypeError\<close>, nothing is appended and the flag stays false.
\<close>

theorem empty_response_raises:
  "read env0 (Recv msg_plain) conn0 = Inr conn_plain_read
   \<and> write_ev env0 (Sent 1) td0 conn_plain_read = Inl (TypeError, conn_plain_read)
   \<and> \<not> response_created conn_plain_read \<and> send_buffer conn_plain_read = []"
  by (simp add: server_eval json_eval msg_plain_def conn_plain_read_def)

text \<open>
  C5. The claim is that a request that has been set is answered at the next write event.
  \<open>write\<close> tests the truth value of \<open>request\<close>, where \<open>read\<close> tests \<open>is None\<close>: after reading
  a \<open>text/json\<close> message whose content is \<open>{}\<close>, the request is set, the flag is false, and
  the write event changes nothing.
\<close>

theorem falsy_request_never_answered:
  "read env0 (Recv msg_empty_object) conn0 = Inr conn_empty_object
   \<and> request conn_empty_object \<noteq> Decoded JNull
   \<and> \<not> response_created conn_empty_object
   \<and> write_ev env0 (Sent 1) td0 conn_empty_object = Inr conn_empty_object"
  by (simp add: server_eval json_eval msg_empty_object_def conn_empty_object_def)

section \<open>Teardown\<close>

text \<open>
  C6, as stated, fails: a second \<open>close\<close> is not a no-op. On the closed connection
  \<open>self.sock\<close> is \<open>None\<close>, so \<open>self.sock.close()\<close> raises \<open>AttributeError\<close>, which passes
  \<open>except OSError\<close>.
\<close>

theorem second_close_raises:
  "close td0 conn0 = Inr conn_closed
   \<and> close td0 conn_closed
       = Inl (AttributeError, conn_closed\<lparr>stdout := [UnregisterError InvalidFileObject]\<rparr>)"
  by (simp add: close_def td0_def conn_closed_def conn0_def init_def sel0_def)

lemma close_open:
  assumes "sock s = Some fd"
  shows "\<exists>s'. close td s = Inr s' \<and> sock s' = None
           \<and> send_buffer s' = send_buffer s \<and> response_created s' = response_created s
           \<and> request s' = request s
           \<and> (\<forall>x. unregister_raises td = Some x \<longrightarrow> UnregisterError x \<in> set (stdout s'))
           \<and> (close_raises_oserror td \<longrightarrow> SocketCloseError \<in> set (stdout s'))
           \<and> (unregister_raises td = None \<longrightarrow> selector s' fd = None)"
  using assms by (auto simp: close_def Let_def split: option.splits)

lemma close_closed:
  assumes "sock s = None"
  shows "\<exists>s'. close td s = Inl (AttributeError, s') \<and> sock s' = None"
  using assms by (auto simp: close_def Let_def split: option.splits)

text \<open>
  C6, amended. When a send takes all that is left of a created response, the write event
  closes the connection: the socket is dropped, the buffer is empty, a failure of
  \<open>unregister\<close> or an \<open>OSError\<close> of the socket's \<open>close\<close> is printed and not raised. Every
  later write event leaves the connection as it is, so it is closed once. A further call of
  \<open>close\<close> raises \<open>AttributeError\<close> and leaves the connection closed.
\<close>

theorem one_shot_teardown:
  assumes "sock s = Some fd" "send_buffer s \<noteq> []" "length (send_buffer s) \<le> n"
    and "response_created s"
  shows "\<exists>s'. priv_write (Sent n) td s = Inr s'
           \<and> sock s' = None \<and> send_buffer s' = []
           \<and> (\<forall>x. unregister_raises td = Some x \<longrightarrow> UnregisterError x \<in> set (stdout s'))
           \<and> (close_raises_oserror td \<longrightarrow> SocketCloseError \<in> set (stdout s'))
           \<and> (unregister_raises td = None \<longrightarrow> selector s' fd = None)
           \<and> (\<forall>e sr td'. write_ev e sr td' s' = Inr s')
           \<and> (\<forall>td'. \<exists>s''. close td' s' = Inl (AttributeError, s'') \<and> sock s'' = None)"
proof -
  let ?s1 = "if verbose s then s\<lparr>stdout := stdout s @ [Sending (send_buffer s)]\<rparr> else s"
  let ?s2 = "?s1\<lparr>send_buffer := []\<rparr>"
  have n: "n \<noteq> 0" using assms(2,3) by (cases "send_buffer s") auto
  have w: "priv_write (Sent n) td s = close td ?s2"
    using assms n by (simp add: priv_write_def Let_def)
  have "sock ?s2 = Some fd" using assms(1) by simp
  from close_open [OF this, of td] assms(4)
  have "\<exists>s'. close td ?s2 = Inr s' \<and> sock s' = None \<and> send_buffer s' = []
           \<and> response_created s'
           \<and> (\<forall>x. unregister_raises td = Some x \<longrightarrow> UnregisterError x \<in> set (stdout s'))
           \<and> (close_raises_oserror td \<longrightarrow> SocketCloseError \<in> set (stdout s'))
           \<and> (unregister_raises td = None \<longrightarrow> selector s' fd = None)"
    by auto
  then obtain s' where s':
    "close td ?s2 = Inr s'" "sock s' = None" "send_buffer s' = []" "response_created s'"
    "\<forall>x. unregister_raises td = Some x \<longrightarrow> UnregisterError x \<in> set (stdout s')"
    "close_raises_oserror td \<longrightarrow> SocketCloseError \<in> set (stdout s')"
    "unregister_raises td = None \<longrightarrow> selector s' fd = None"
    by auto
  have sb: "send_buffer s' = []" using s'(3) .
  have rc: "response_created s'" using s'(4) .
  have "write_ev e sr td' s' = Inr s'" for e sr td'
    using sb rc by (simp add: write_ev_def priv_write_def)
  moreover have "\<exists>s''. close td' s' = Inl (AttributeError, s'') \<and> sock s'' = None" for td'
    using close_closed [OF s'(2)] .
  ultimately show ?thesis
    using w s'(1,2,5,6,7) sb by auto
qed

theorem one_shot_teardown_witness:
  "sock conn_sending = Some 5 \<and> send_buffer conn_sending \<noteq> []
   \<and> length (send_buffer conn_sending) \<le> 2 \<and> response_created conn_sending
   \<and> (\<exists>s'. priv_write (Sent 2) td_fail conn_sending = Inr s'
           \<and> sock s' = None \<and> send_buffer s' = []
           \<and> UnregisterError KeyError \<in> set (stdout s')
           \<and> SocketCloseError \<in> set (stdout s')
           \<and> write_ev env0 (Sent 1) td0 s' = Inr s'
           \<and> isl (close td0 s'))"
proof -
  have h1: "sock conn_sending = Some 5" and h2: "send_buffer conn_sending \<noteq> []"
    and h3: "length (send_buffer conn_sending) \<le> 2" and h4: "response_created conn_sending"
    by (simp_all add: conn_sending_def conn0_def init_def sel0_def)
  from one_shot_teardown [OF h1 h2 h3 h4, of td_fail] obtain s' where
    "priv_write (Sent 2) td_fail conn_sending = Inr s'" "sock s' = None" "send_buffer s' = []"
    "\<forall>x. unregister_raises td_fail = Some x \<longrightarrow> UnregisterError x \<in> set (stdout s')"
    "close_raises_oserror td_fail \<longrightarrow> SocketCloseError \<in> set (stdout s')"
    "\<forall>e sr td'. write_ev e sr td' s' = Inr s'"
    "\<forall>td'. \<exists>s''. close td' s' = Inl (AttributeError, s'') \<and> sock s'' = None"
    by blast
  moreover have "unregister_raises td_fail = Some KeyError" "close_raises_oserror td_fail"
    by (simp_all add: td_fail_def)
  moreover have "isl (close td0 s')"
    using calculation(7) by (metis sum.disc(1))
  ultimately have "\<exists>s'. priv_write (Sent 2) td_fail conn_sending = Inr s'
           \<and> sock s' = None \<and> send_buffer s' = []
           \<and> UnregisterError KeyError \<in> set (stdout s')
           \<and> SocketCloseError \<in> set (stdout s')
           \<and> write_ev env0 (Sent 1) td0 s' = Inr s'
           \<and> isl (close td0 s')"
    by blast
  then show ?thesis using h1 h2 h3 h4 by simp
qed

section \<open>The scenario\<close>


text \<open>
  C9, as stated, fails: the content \<open>{"cmd":"status"}\<close> has 16 bytes, not 13. With
  \<open>content-length\<close> 13 the payload stage decodes the first 13 bytes, \<open>{"cmd":"statu\<close>, and
  \<open>json.load\<close> raises; no payload is set.
\<close>

theorem scenario_length_13_fails:
  "isl (read env0 (Recv msg13) conn0)
   \<and> fst (projl (read env0 (Recv msg13) conn0)) = JSONDecodeError
   \<and> request (snd (projl (read env0 (Recv msg13) conn0))) = Decoded JNull"
  by (simp add: server_eval json_eval msg13_def)

lemma read_msg16: "read env0 (Recv msg16) conn0 = Inr conn_status"
  by (simp add: server_eval json_eval msg16_def header16_def conn_status_def)

text \<open>
  C9, amended: with \<open>content-length\<close> 16 the read event yields the payload
  \<open>{"cmd": "status"}\<close>; the write event builds \<open>{"result": 1}\<close> (13 bytes) wrapped by
  \<open>_create_message\<close>; and the write event in which the socket takes all 118 bytes closes the
  connection.
\<close>

theorem scenario_length_16:
  \<open>read env0 (Recv msg16) conn0 = Inr conn_status
   \<and> request conn_status = Decoded (JObj [(ascii ''cmd'', JStr (ascii ''status''))])
   \<and> write_ev env0 SendWouldBlock td0 conn_status
       = Inr (conn_status\<lparr>response_created := True, send_buffer := response16\<rparr>)
   \<and> priv_create_message env0 (Some ''{"result": 1}'') (JStr (ascii ''text/json''))
         (JStr (ascii ''utf-8'')) = Inr response16
   \<and> length response16 = 118
   \<and> write_ev env0 (Sent 118) td0 conn_status
       = Inr (conn_status\<lparr>response_created := True, send_buffer := [],
                selector := (selector conn_status)(5 := None), sock := None\<rparr>)\<close>
  by (simp add: read_msg16)
    (simp add: server_eval json_eval header16_def response16_def conn_status_def
      td0_def digits_simps)

section \<open>Fragmented delivery\<close>

lemma request_ready_ext:
  assumes "py_getitem (jsonheader s) (ascii ''content-length'') = Inr (JInt n)"
    and "0 \<le> n" "nat n \<le> length (recv_buffer s)"
  shows "process_request e (s\<lparr>recv_buffer := recv_buffer s @ b\<rparr>) =
           (case process_request e s of
              Inl xt \<Rightarrow> Inl (fst xt, (snd xt)\<lparr>recv_buffer := recv_buffer (snd xt) @ b\<rparr>)
            | Inr t \<Rightarrow> Inr (t\<lparr>recv_buffer := recv_buffer t @ b\<rparr>))"
proof -
  have le: "n \<le> int (length (recv_buffer s))" "n \<le> int (length (recv_buffer s) + length b)"
    using assms(2,3) by arith+
  show ?thesis
    using assms le
    by (simp add: process_request_def py_len_ge_def py_slice_to_def
        priv_set_selector_events_mask_def Let_def
        split: sum.splits option.splits)
qed

lemma request_not_ready:
  assumes "py_getitem (jsonheader s) (ascii ''content-length'') = Inr (JInt n)"
    and "length (recv_buffer s) < nat n"
  shows "process_request e s = Inr s"
proof -
  have "\<not> n \<le> int (length (recv_buffer s))" using assms(2) by arith
  then show ?thesis using assms(1)
    by (simp add: process_request_def py_len_ge_def)
qed

lemma request_keeps:
  assumes "process_request e s = Inr t"
  shows "jsonheader t = jsonheader s \<and> jsonheader_len t = jsonheader_len s
         \<and> recv_buffer t = recv_buffer s \<and> sock t = sock s"
  using assms
  by (auto simp: process_request_def priv_set_selector_events_mask_def Let_def
      split: sum.splits option.splits if_splits)

lemma request_again_null:
  assumes "process_request e s = Inr t" "request t = Decoded JNull"
  shows "\<exists>t'. process_request e t = Inr t' \<and> request t' = Decoded JNull"
proof -
  obtain cl where cl: "py_getitem (jsonheader s) (ascii ''content-length'') = Inr cl"
    using assms(1) by (cases "py_getitem (jsonheader s) (ascii ''content-length'')")
      (simp_all add: process_request_def)
  obtain enough where en: "py_len_ge e (length (recv_buffer s)) cl = Inr enough"
    using assms(1) cl by (cases "py_len_ge e (length (recv_buffer s)) cl")
      (simp_all add: process_request_def)
  show ?thesis
  proof (cases enough)
    case False
    then have "t = s" using assms(1) cl en by (simp add: process_request_def)
    then show ?thesis using assms by simp
  next
    case True
    obtain data where data: "py_slice_to (recv_buffer s) cl = Inr data"
      using assms(1) cl en True by (cases "py_slice_to (recv_buffer s) cl")
        (simp_all add: process_request_def)
    obtain ctype where ct: "py_getitem (jsonheader s) (ascii ''content-type'') = Inr ctype"
      using assms(1) cl en True data
      by (cases "py_getitem (jsonheader s) (ascii ''content-type'')")
        (simp_all add: process_request_def)
    show ?thesis
    proof (cases "ctype = JStr (ascii ''text/json'')")
      case json: True
      obtain enc where enc: "py_getitem (jsonheader s) (ascii ''content-encoding'') = Inr enc"
        using assms(1) cl en True data ct json
        by (cases "py_getitem (jsonheader s) (ascii ''content-encoding'')")
          (simp_all add: process_request_def)
      obtain obj where obj: "priv_json_decode e data enc = Inr obj"
        using assms(1) cl en True data ct json enc
        by (cases "priv_json_decode e data enc") (simp_all add: process_request_def)
      have t: "t = (if verbose s
                    then s\<lparr>request := Decoded obj,
                           stdout := stdout s @ [ReceivedRequest (Decoded obj)]\<rparr>
                    else s\<lparr>request := Decoded obj\<rparr>)"
        using assms(1) cl en True data ct json enc obj
        by (auto simp: process_request_def Let_def)
      then have "obj = JNull" using assms(2) by (simp split: if_splits)
      then show ?thesis
        using t cl en True data ct json enc obj
        by (simp add: process_request_def Let_def)
    next
      case raw: False
      have "request t \<noteq> Decoded JNull"
        using assms(1) cl en True data ct raw
        by (auto simp: process_request_def Let_def priv_set_selector_events_mask_def
            split: option.splits)
      then show ?thesis using assms(2) by simp
    qed
  qed
qed

lemma header_ready_ext:
  assumes "jsonheader_len s = Some L" "L \<le> length (recv_buffer s)"
  shows "process_jsonheader e (s\<lparr>recv_buffer := recv_buffer s @ b\<rparr>) =
           (case process_jsonheader e s of
              Inl xt \<Rightarrow> Inl (fst xt, (snd xt)\<lparr>recv_buffer := recv_buffer (snd xt) @ b\<rparr>)
            | Inr t \<Rightarrow> Inr (t\<lparr>recv_buffer := recv_buffer t @ b\<rparr>))"
  using assms
  by (simp add: process_jsonheader_def Let_def split: sum.splits option.splits)

lemma header_not_ready:
  assumes "jsonheader_len s = Some L" "length (recv_buffer s) < L"
  shows "process_jsonheader e s = Inr s"
  using assms by (simp add: process_jsonheader_def)

lemma check_required_not_null: "check_required JNull required_headers \<noteq> None"
  by (simp add: required_headers_def py_contains_def)

lemma header_keeps:
  assumes "process_jsonheader e s = Inr t" "jsonheader_len s = Some L"
    "L \<le> length (recv_buffer s)"
  shows "jsonheader_len t = Some L \<and> request t = request s \<and> sock t = sock s
         \<and> jsonheader t \<noteq> JNull"
  using assms check_required_not_null
  by (auto simp: process_jsonheader_def Let_def split: sum.splits option.splits if_splits)

lemma proto_ready_ext:
  assumes "2 \<le> length (recv_buffer s)"
  shows "process_protoheader (s\<lparr>recv_buffer := recv_buffer s @ b\<rparr>) =
           (case process_protoheader s of
              Inl xt \<Rightarrow> Inl (fst xt, (snd xt)\<lparr>recv_buffer := recv_buffer (snd xt) @ b\<rparr>)
            | Inr t \<Rightarrow> Inr (t\<lparr>recv_buffer := recv_buffer t @ b\<rparr>))"
  using assms
  by (simp add: process_protoheader_def Let_def split: sum.splits)

lemma proto_ready:
  assumes "2 \<le> length (recv_buffer s)"
  shows "\<exists>t L. process_protoheader s = Inr t \<and> jsonheader_len t = Some L
           \<and> jsonheader t = jsonheader s \<and> request t = request s \<and> sock t = sock s"
  using process_protoheader_stage [of s] assms by auto

lemma proto_not_ready:
  assumes "length (recv_buffer s) < 2"
  shows "process_protoheader s = Inr s"
  using assms by (simp add: process_protoheader_def)

lemma stages_payload:
  assumes "sock s = Some fd" "jsonheader_len s = Some L" "jsonheader s \<noteq> JNull"
  shows "read e RecvWouldBlock s =
           (if truthy e (jsonheader s) \<and> request s = Decoded JNull
            then process_request e s else Inr s)"
  using assms by (simp add: read_def priv_read_def)

lemma stages_header:
  assumes "sock s = Some fd" "jsonheader_len s = Some L" "jsonheader s = JNull"
  shows "read e RecvWouldBlock s =
           (case process_jsonheader e s of
              Inl x \<Rightarrow> Inl x
            | Inr t \<Rightarrow> if truthy e (jsonheader t) \<and> request t = Decoded JNull
                       then process_request e t else Inr t)"
  using assms by (simp add: read_def priv_read_def)

lemma stages_proto:
  assumes "sock s = Some fd" "jsonheader_len s = None"
  shows "read e RecvWouldBlock s =
           (case process_protoheader s of
              Inl x \<Rightarrow> Inl x
            | Inr t \<Rightarrow> read e RecvWouldBlock t)"
  using assms proto_ready [of s] proto_not_ready [of s]
  by (cases "2 \<le> length (recv_buffer s)") (auto simp: read_def priv_read_def)

lemma read_recv:
  assumes "sock s = Some fd" "d \<noteq> []"
  shows "read e (Recv d) s = read e RecvWouldBlock (s\<lparr>recv_buffer := recv_buffer s @ d\<rparr>)"
  using assms by (simp add: read_def priv_read_def)

lemma payload_split:
  assumes s: "sock s = Some fd" "jsonheader_len s = Some L" "jsonheader s \<noteq> JNull"
    and run: "read e RecvWouldBlock (s\<lparr>recv_buffer := recv_buffer s @ b\<rparr>) = Inr s2"
    and ok: "py_getitem (jsonheader s2) (ascii ''content-length'') = Inr (JInt n)" "0 \<le> n"
  shows "\<exists>s1. read e RecvWouldBlock s = Inr s1 \<and> sock s1 = Some fd \<and> stage_inv s1
           \<and> (\<exists>s2'. read e RecvWouldBlock (s1\<lparr>recv_buffer := recv_buffer s1 @ b\<rparr>) = Inr s2'
                  \<and> jsonheader s2' = jsonheader s2 \<and> request s2' = request s2)"
proof -
  let ?sb = "s\<lparr>recv_buffer := recv_buffer s @ b\<rparr>"
  have sb: "sock ?sb = Some fd" "jsonheader_len ?sb = Some L" "jsonheader ?sb \<noteq> JNull"
    using s by simp_all
  have inv: "stage_inv s" using s by (simp add: stage_inv_def)
  show ?thesis
  proof (cases "truthy e (jsonheader s) \<and> request s = Decoded JNull")
    case False
    have "read e RecvWouldBlock s = Inr s"
      by (simp only: stages_payload [OF s] False if_False)
    then show ?thesis using run s inv by auto
  next
    case True
    have run': "process_request e ?sb = Inr s2"
      using run stages_payload [OF sb, of e] True by simp
    have h2: "jsonheader s2 = jsonheader s"
      using request_keeps [OF run'] by simp
    have cl: "py_getitem (jsonheader s) (ascii ''content-length'') = Inr (JInt n)"
      using ok(1) h2 by simp
    show ?thesis
    proof (cases "nat n \<le> length (recv_buffer s)")
      case ready: True
      from request_ready_ext [OF cl ok(2) ready, of e b] run'
      obtain t where t: "process_request e s = Inr t"
        "s2 = t\<lparr>recv_buffer := recv_buffer t @ b\<rparr>"
        by (cases "process_request e s") auto
      have keep: "jsonheader t = jsonheader s" "jsonheader_len t = Some L"
        "recv_buffer t = recv_buffer s" "sock t = Some fd"
        using request_keeps [OF t(1)] s by simp_all
      let ?tb = "t\<lparr>recv_buffer := recv_buffer t @ b\<rparr>"
      have tb: "sock ?tb = Some fd" "jsonheader_len ?tb = Some L" "jsonheader ?tb \<noteq> JNull"
        using keep s by simp_all
      have r1: "read e RecvWouldBlock s = Inr t"
        using stages_payload [OF s, of e] True t(1) by simp
      have invt: "stage_inv t" using keep s by (simp add: stage_inv_def)
      have "\<exists>s2'. read e RecvWouldBlock ?tb = Inr s2'
                  \<and> jsonheader s2' = jsonheader s2 \<and> request s2' = request s2"
      proof (cases "request t = Decoded JNull")
        case False
        then have "read e RecvWouldBlock ?tb = Inr ?tb"
          using stages_payload [OF tb, of e] by simp
        then show ?thesis using t(2) by simp
      next
        case null: True
        from request_again_null [OF t(1) null] obtain t' where
          t': "process_request e t = Inr t'" "request t' = Decoded JNull" by blast
        have clt: "py_getitem (jsonheader t) (ascii ''content-length'') = Inr (JInt n)"
          using cl keep by simp
        have readyt: "nat n \<le> length (recv_buffer t)" using ready keep by simp
        have "process_request e ?tb = Inr (t'\<lparr>recv_buffer := recv_buffer t' @ b\<rparr>)"
          using request_ready_ext [OF clt ok(2) readyt, of e b] t'(1) by simp
        moreover have "truthy e (jsonheader ?tb)" using True keep by simp
        moreover have "request ?tb = Decoded JNull" using null by simp
        ultimately have "read e RecvWouldBlock ?tb = Inr (t'\<lparr>recv_buffer := recv_buffer t' @ b\<rparr>)"
          using stages_payload [OF tb, of e] by simp
        moreover have "jsonheader t' = jsonheader t"
          using request_keeps [OF t'(1)] by simp
        ultimately show ?thesis using t'(2) t(2) null by simp
      qed
      then show ?thesis using r1 keep(4) invt by blast
    next
      case notready: False
      then have "process_request e s = Inr s"
        using request_not_ready [OF cl, of e] by simp
      then have "read e RecvWouldBlock s = Inr s"
        using stages_payload [OF s, of e] by simp
      then show ?thesis using run s inv by auto
    qed
  qed
qed

lemma header_split:
  assumes s: "sock s = Some fd" "jsonheader_len s = Some L" "jsonheader s = JNull"
      "request s = Decoded JNull"
    and run: "read e RecvWouldBlock (s\<lparr>recv_buffer := recv_buffer s @ b\<rparr>) = Inr s2"
    and ok: "py_getitem (jsonheader s2) (ascii ''content-length'') = Inr (JInt n)" "0 \<le> n"
  shows "\<exists>s1. read e RecvWouldBlock s = Inr s1 \<and> sock s1 = Some fd \<and> stage_inv s1
           \<and> (\<exists>s2'. read e RecvWouldBlock (s1\<lparr>recv_buffer := recv_buffer s1 @ b\<rparr>) = Inr s2'
                  \<and> jsonheader s2' = jsonheader s2 \<and> request s2' = request s2)"
proof -
  let ?sb = "s\<lparr>recv_buffer := recv_buffer s @ b\<rparr>"
  have sb: "sock ?sb = Some fd" "jsonheader_len ?sb = Some L" "jsonheader ?sb = JNull"
    using s by simp_all
  have inv: "stage_inv s" using s by (simp add: stage_inv_def)
  show ?thesis
  proof (cases "L \<le> length (recv_buffer s)")
    case ready: True
    obtain u2 where u2: "process_jsonheader e ?sb = Inr u2"
      using run stages_header [OF sb, of e] by (cases "process_jsonheader e ?sb") auto
    from header_ready_ext [OF s(2) ready, of e b] u2
    obtain u where u: "process_jsonheader e s = Inr u"
      "u2 = u\<lparr>recv_buffer := recv_buffer u @ b\<rparr>"
      by (cases "process_jsonheader e s") auto
    have keep: "jsonheader_len u = Some L" "request u = Decoded JNull" "sock u = Some fd"
      "jsonheader u \<noteq> JNull"
      using header_keeps [OF u(1) s(2) ready] s by simp_all
    let ?ub = "u\<lparr>recv_buffer := recv_buffer u @ b\<rparr>"
    have ub: "sock ?ub = Some fd" "jsonheader_len ?ub = Some L" "jsonheader ?ub \<noteq> JNull"
      using keep by simp_all
    have "read e RecvWouldBlock s = read e RecvWouldBlock u"
      using stages_header [OF s(1,2,3), of e] u(1) stages_payload [OF keep(3,1,4), of e]
      by simp
    moreover have "read e RecvWouldBlock ?sb = read e RecvWouldBlock ?ub"
      using stages_header [OF sb, of e] u2 u(2) stages_payload [OF ub, of e]
      by simp
    ultimately show ?thesis
      using payload_split [OF keep(3,1,4) _ ok, of e b] run by simp
  next
    case False
    then have "process_jsonheader e s = Inr s"
      using header_not_ready [OF s(2), of e] by simp
    then have "read e RecvWouldBlock s = Inr s"
      using stages_header [OF s(1,2,3), of e] s(3) by (simp add: truthy_def)
    then show ?thesis using run s(1) inv by auto
  qed
qed

lemma proto_split:
  assumes s: "sock s = Some fd" "jsonheader_len s = None" "jsonheader s = JNull"
      "request s = Decoded JNull"
    and run: "read e RecvWouldBlock (s\<lparr>recv_buffer := recv_buffer s @ b\<rparr>) = Inr s2"
    and ok: "py_getitem (jsonheader s2) (ascii ''content-length'') = Inr (JInt n)" "0 \<le> n"
  shows "\<exists>s1. read e RecvWouldBlock s = Inr s1 \<and> sock s1 = Some fd \<and> stage_inv s1
           \<and> (\<exists>s2'. read e RecvWouldBlock (s1\<lparr>recv_buffer := recv_buffer s1 @ b\<rparr>) = Inr s2'
                  \<and> jsonheader s2' = jsonheader s2 \<and> request s2' = request s2)"
proof -
  let ?sb = "s\<lparr>recv_buffer := recv_buffer s @ b\<rparr>"
  have sb: "sock ?sb = Some fd" "jsonheader_len ?sb = None"
    using s by simp_all
  have inv: "stage_inv s" using s by (simp add: stage_inv_def)
  show ?thesis
  proof (cases "2 \<le> length (recv_buffer s)")
    case ready: True
    from proto_ready [OF ready] obtain u L where u: "process_protoheader s = Inr u"
      "jsonheader_len u = Some L" "jsonheader u = JNull" "request u = Decoded JNull"
      "sock u = Some fd"
      using s by auto
    let ?ub = "u\<lparr>recv_buffer := recv_buffer u @ b\<rparr>"
    have "process_protoheader ?sb = Inr ?ub"
      using proto_ready_ext [OF ready, of b] u(1) by simp
    then have "read e RecvWouldBlock ?sb = read e RecvWouldBlock ?ub"
      using stages_proto [OF sb, of e] by simp
    moreover have "read e RecvWouldBlock s = read e RecvWouldBlock u"
      using stages_proto [OF s(1,2), of e] u(1) by simp
    ultimately show ?thesis
      using header_split [OF u(5,2,3,4) _ ok, of e b] run by simp
  next
    case False
    then have "process_protoheader s = Inr s"
      using proto_not_ready [of s] by simp
    then have "read e RecvWouldBlock s = Inr s"
      using s by (simp add: read_def priv_read_def truthy_def)
    then show ?thesis using run s(1) inv by auto
  qed
qed

lemma stages_split:
  assumes "sock s = Some fd" "stage_inv s"
    and run: "read e RecvWouldBlock (s\<lparr>recv_buffer := recv_buffer s @ b\<rparr>) = Inr s2"
    and ok: "py_getitem (jsonheader s2) (ascii ''content-length'') = Inr (JInt n)" "0 \<le> n"
  shows "\<exists>s1. read e RecvWouldBlock s = Inr s1 \<and> sock s1 = Some fd \<and> stage_inv s1
           \<and> (\<exists>s2'. read e RecvWouldBlock (s1\<lparr>recv_buffer := recv_buffer s1 @ b\<rparr>) = Inr s2'
                  \<and> jsonheader s2' = jsonheader s2 \<and> request s2' = request s2)"
proof (cases "jsonheader s = JNull")
  case null: True
  then have r: "request s = Decoded JNull" using assms(2) by (simp add: stage_inv_def)
  show ?thesis
  proof (cases "jsonheader_len s")
    case None
    then show ?thesis using proto_split [OF assms(1) None null r run ok] by simp
  next
    case (Some L)
    then show ?thesis using header_split [OF assms(1) Some null r run ok] by simp
  qed
next
  case False
  then obtain L where "jsonheader_len s = Some L"
    using assms(2) by (auto simp: stage_inv_def)
  then show ?thesis using payload_split [OF assms(1) _ False run ok] by simp
qed

lemma read_split:
  assumes inv: "stage_inv s" and ne: "a \<noteq> []" "b \<noteq> []"
    and run: "read e (Recv (a @ b)) s = Inr s2"
    and ok: "py_getitem (jsonheader s2) (ascii ''content-length'') = Inr (JInt n)" "0 \<le> n"
  shows "\<exists>s1. read e (Recv a) s = Inr s1 \<and> stage_inv s1
           \<and> (\<exists>s2'. read e (Recv b) s1 = Inr s2'
                  \<and> jsonheader s2' = jsonheader s2 \<and> request s2' = request s2)"
proof -
  obtain fd where fd: "sock s = Some fd"
    using run by (cases "sock s") (simp_all add: read_def priv_read_def)
  let ?sa = "s\<lparr>recv_buffer := recv_buffer s @ a\<rparr>"
  have sa: "sock ?sa = Some fd" "stage_inv ?sa"
    using fd inv by (simp_all add: stage_inv_def)
  have "read e (Recv (a @ b)) s
          = read e RecvWouldBlock (?sa\<lparr>recv_buffer := recv_buffer ?sa @ b\<rparr>)"
    using read_recv [OF fd, of "a @ b" e] ne by simp
  with run have run': "read e RecvWouldBlock (?sa\<lparr>recv_buffer := recv_buffer ?sa @ b\<rparr>) = Inr s2"
    by simp
  from stages_split [OF sa run' ok] obtain s1 s2' where
    s1: "read e RecvWouldBlock ?sa = Inr s1" "sock s1 = Some fd" "stage_inv s1"
    "read e RecvWouldBlock (s1\<lparr>recv_buffer := recv_buffer s1 @ b\<rparr>) = Inr s2'"
    "jsonheader s2' = jsonheader s2" "request s2' = request s2"
    by blast
  have "read e (Recv a) s = Inr s1"
    using read_recv [OF fd ne(1), of e] s1(1) by simp
  moreover have "read e (Recv b) s1 = Inr s2'"
    using read_recv [OF s1(2) ne(2), of e] s1(4) by simp
  ultimately show ?thesis using s1(3,5,6) by blast
qed

lemma read_all_split:
  assumes "stage_inv s" "chunks \<noteq> []" "[] \<notin> set chunks"
    and "read e (Recv (concat chunks)) s = Inr s2"
    and "py_getitem (jsonheader s2) (ascii ''content-length'') = Inr (JInt n)" "0 \<le> n"
  shows "\<exists>s2'. read_all e chunks s = Inr s2'
           \<and> jsonheader s2' = jsonheader s2 \<and> request s2' = request s2"
  using assms
proof (induction chunks arbitrary: s s2)
  case Nil
  then show ?case by simp
next
  case (Cons c cs)
  show ?case
  proof (cases "cs = []")
    case True
    then show ?thesis using Cons.prems by simp
  next
    case False
    have ne: "c \<noteq> []" "concat cs \<noteq> []" "[] \<notin> set cs"
      using Cons.prems(3) False by (cases cs; auto)+
    have run: "read e (Recv (c @ concat cs)) s = Inr s2"
      using Cons.prems(4) by simp
    from read_split [OF Cons.prems(1) ne(1,2) run Cons.prems(5,6)] obtain s1 s2' where
      s1: "read e (Recv c) s = Inr s1" "stage_inv s1"
      "read e (Recv (concat cs)) s1 = Inr s2'"
      "jsonheader s2' = jsonheader s2" "request s2' = request s2"
      by blast
    have ok': "py_getitem (jsonheader s2') (ascii ''content-length'') = Inr (JInt n)"
      using Cons.prems(5) s1(4) by simp
    from Cons.IH [OF s1(2) False ne(3) s1(3) ok' Cons.prems(6)] obtain s3 where
      "read_all e cs s1 = Inr s3" "jsonheader s3 = jsonheader s2'" "request s3 = request s2'"
      by blast
    then show ?thesis using s1 by simp
  qed
qed

text \<open>
  C2. Let a single read event deliver all of \<open>M\<close> to a connection and end with a header
  whose content length is a number \<open>n \<ge> 0\<close> (a valid wire message). Then delivering \<open>M\<close> in
  any sequence of non-empty chunks, one read event each, ends with the same header and the
  same request.
\<close>

theorem fragmentation_invariance:
  assumes "stage_inv s"
    and "read e (Recv M) s = Inr sF"
    and "py_getitem (jsonheader sF) (ascii ''content-length'') = Inr (JInt n)" "0 \<le> n"
    and "concat chunks = M" "[] \<notin> set chunks"
  shows "\<exists>sF'. read_all e chunks s = Inr sF'
           \<and> jsonheader sF' = jsonheader sF \<and> request sF' = request sF"
proof -
  have "M \<noteq> []"
    using assms(2) by (auto simp: read_def priv_read_def split: option.splits)
  then have "chunks \<noteq> []" using assms(5) by auto
  then show ?thesis
    using read_all_split [OF assms(1) _ assms(6), of e sF n] assms(2,3,4,5) by simp
qed

theorem fragmentation_invariance_witness:
  "stage_inv conn0
   \<and> read env0 (Recv msg16) conn0 = Inr conn_status
   \<and> py_getitem (jsonheader conn_status) (ascii ''content-length'') = Inr (JInt 16)
   \<and> (0::int) \<le> 16
   \<and> concat chunks16 = msg16 \<and> [] \<notin> set chunks16
   \<and> (\<exists>sF'. read_all env0 chunks16 conn0 = Inr sF'
          \<and> jsonheader sF' = header16
          \<and> request sF' = Decoded (JObj [(ascii ''cmd'', JStr (ascii ''status''))]))"
proof -
  have h1: "stage_inv conn0"
    by (simp add: stage_inv_def conn0_def init_def sel0_def)
  have h3: "py_getitem (jsonheader conn_status) (ascii ''content-length'') = Inr (JInt 16)"
    by (simp add: conn_status_def header16_def py_getitem_def ascii_def)
  have h4: "(0::int) \<le> 16" by simp
  have h5: "concat chunks16 = msg16"
    by (simp add: chunks16_def msg16_def)
  have h6: "[] \<notin> set chunks16"
    by (simp add: chunks16_def msg16_def)
  have c: "jsonheader conn_status = header16"
    "request conn_status = Decoded (JObj [(ascii ''cmd'', JStr (ascii ''status''))])"
    by (simp_all add: conn_status_def)
  show ?thesis
    using fragmentation_invariance [OF h1 read_msg16 h3 h4 h5 h6] h1 read_msg16 h3 h5 h6 c
    by simp
qed

section \<open>The message builder and the decode stages\<close>

subsection \<open>UTF-8 decodes what it encodes\<close>







subsection \<open>\<open>json.loads\<close> reads what \<open>json.dumps\<close> writes for a message header\<close>

















subsection \<open>Round trip\<close>













end
